theory Spec2Isabelle
  imports Main "HOL-Library.Sublist"
begin

section \<open>The session supervisor of \<^verbatim>\<open>src/sessions.js\<close>\<close>

text \<open>
  The module keeps four global tables (\<^verbatim>\<open>sessions\<close>, \<^verbatim>\<open>pendingSessions\<close>,
  \<^verbatim>\<open>sessionLocks\<close>, \<^verbatim>\<open>restartAttempts\<close>) and acts on the file system (the
  \<^verbatim>\<open>SingletonLock\<close> entry of a session directory, recursive removal of a session
  directory) and on the process table (signals sent with \<^verbatim>\<open>process.kill\<close> and
  \<^verbatim>\<open>childProcess.kill\<close>). All of it is one record, passed through every function.
  What the outside world answers (the clock, whether the browser launches, what a page
  reports) is an argument of the function that asks.
\<close>

subsection \<open>Data\<close>

type_synonym sessionId = string
type_synonym pid = nat

text \<open>What an awaited or called external operation does: it returns or it throws
  an error with a message.\<close>

datatype 'a outcome = Returns 'a | Throws string

text \<open>A \<^verbatim>\<open>Client\<close> object as far as the module looks into it: \<^verbatim>\<open>client.pupBrowser\<close>
  may be unset (\<open>None\<close>); when set, \<^verbatim>\<open>pupBrowser.process()\<close> is a child process with
  a pid or null.\<close>

record client_obj =
  clientId :: nat
  pupBrowser :: "pid option option"

text \<open>The value stored in \<^verbatim>\<open>restartAttempts\<close>: \<^verbatim>\<open>{ count, firstAttempt, lastAttempt }\<close>,
  times in milliseconds as \<^verbatim>\<open>Date.now()\<close> gives them.\<close>

record attempts =
  count :: nat
  firstAttempt :: int
  lastAttempt :: int

text \<open>The directory entry \<^verbatim>\<open>session-<id>/SingletonLock\<close>: a symbolic link with its
  target, or something else that \<^verbatim>\<open>lstat\<close> finds and \<^verbatim>\<open>readlink\<close> refuses.\<close>

datatype lockfile = Symlink string | NotALink

text \<open>A process of the operating system, as \<^verbatim>\<open>process.kill(pid, 0)\<close> sees it: it may
  be signalled, or the call is refused (\<^verbatim>\<open>EPERM\<close>). A pid outside the table has no process
  (\<^verbatim>\<open>ESRCH\<close>).\<close>

datatype proc = Signalable | NotPermitted

record world =
  sessions :: "sessionId \<rightharpoonup> client_obj"
  pendingSessions :: "sessionId set"
  sessionLocks :: "sessionId \<rightharpoonup> bool"
  restartAttempts :: "sessionId \<rightharpoonup> attempts"
  lockFiles :: "sessionId \<rightharpoonup> lockfile"
  rmCalls :: "string list"
  unlinked :: "string list"
  procs :: "pid \<rightharpoonup> proc"
  killed :: "pid list"

text \<open>\<open>rmCalls\<close> lists the paths handed to \<^verbatim>\<open>fs.promises.rm(_, {recursive, force})\<close>,
  \<open>unlinked\<close> the paths whose entry \<^verbatim>\<open>fs.promises.unlink\<close> has removed, \<open>killed\<close> the
  pids that were sent \<^verbatim>\<open>SIGKILL\<close>, each in order.\<close>

definition init_world :: world where
  "init_world = \<lparr> sessions = Map.empty, pendingSessions = {}, sessionLocks = Map.empty,
     restartAttempts = Map.empty, lockFiles = Map.empty, rmCalls = [],
     unlinked = [], procs = Map.empty, killed = [] \<rparr>"

subsection \<open>Restart policy: \<^verbatim>\<open>canRestart\<close> (lines 13-50)\<close>

definition MAX_RESTART_ATTEMPTS :: nat where
  "MAX_RESTART_ATTEMPTS = 3"

definition RESTART_COOLDOWN_MS :: int where
  "RESTART_COOLDOWN_MS = 30000"

definition RESTART_RESET_MS :: int where
  "RESTART_RESET_MS = 120000"

text \<open>\<open>now\<close> is the value of \<^verbatim>\<open>Date.now()\<close> at the call. An entry of the table is an
  object, so \<^verbatim>\<open>!attempts\<close> holds exactly when the key has no entry; \<^verbatim>\<open>attempts.count++\<close>
  and the assignment to \<^verbatim>\<open>attempts.lastAttempt\<close> change the stored object.\<close>

definition canRestart :: "int \<Rightarrow> sessionId \<Rightarrow> world \<Rightarrow> bool \<times> world" where
  "canRestart now sessionId w =
     (case restartAttempts w sessionId of
        None \<Rightarrow>
          (True, w\<lparr>restartAttempts := (restartAttempts w)(sessionId \<mapsto>
                     \<lparr>count = 1, firstAttempt = now, lastAttempt = now\<rparr>)\<rparr>)
      | Some a \<Rightarrow>
          if now - firstAttempt a > RESTART_RESET_MS then
            (True, w\<lparr>restartAttempts := (restartAttempts w)(sessionId \<mapsto>
                       \<lparr>count = 1, firstAttempt = now, lastAttempt = now\<rparr>)\<rparr>)
          else if count a \<ge> MAX_RESTART_ATTEMPTS then (False, w)
          else if now - lastAttempt a < RESTART_COOLDOWN_MS then (False, w)
          else
            (True, w\<lparr>restartAttempts := (restartAttempts w)(sessionId \<mapsto>
                       a\<lparr>count := count a + 1, lastAttempt := now\<rparr>)\<rparr>))"

text \<open>A series of crash signals for one key at the given times: what each call answers
  and the count the table holds for the key afterwards.\<close>

fun restart_run :: "sessionId \<Rightarrow> int list \<Rightarrow> world \<Rightarrow> (bool \<times> nat option) list" where
  "restart_run sessionId [] w = []"
| "restart_run sessionId (now # ts) w =
     (let (ok, w') = canRestart now sessionId w
      in (ok, map_option count (restartAttempts w' sessionId)) # restart_run sessionId ts w')"

subsection \<open>What the outside answers\<close>

text \<open>One pass of the loop of \<^verbatim>\<open>validateSession\<close> (lines 126-142): the page says it is
  closed; \<^verbatim>\<open>pupPage.evaluate('1')\<close> settles first; the one-second timer settles first (it
  resolves, so the race resolves too); or the pass throws (\<^verbatim>\<open>isClosed\<close> or \<^verbatim>\<open>evaluate\<close>
  throws, or \<^verbatim>\<open>client.pupPage\<close> is still unset).\<close>

datatype attempt = PageClosed | RoundTripDone | RoundTripTimeout | AttemptThrows

text \<open>The configuration values of \<^verbatim>\<open>./config\<close> and the answers of everything the
  module calls but does not define. One value of this record describes what one call of
  an operation meets.\<close>

record env =
  clock :: int
  releaseBrowserLock :: bool
  sessionFolderPath :: string
  pathJoin :: "string \<Rightarrow> string \<Rightarrow> string"
  pathResolve :: "string \<Rightarrow> string"
  realpath :: "string \<Rightarrow> string outcome"
  rmOutcome :: "unit outcome"
  unlinkOutcome :: "unit outcome"
  buildOutcome :: "unit outcome"
  newClient :: nat
  launched :: "pid option option"
  initializeOutcome :: "unit outcome"
  readyFires :: bool
  probe :: "nat \<Rightarrow> attempt"
  getState :: "string option outcome"
  detachListeners :: "unit outcome"
  isConnected :: "nat \<Rightarrow> bool"
  closePages :: "unit outcome"

text \<open>
  \<^item> \<open>clock\<close>: \<^verbatim>\<open>Date.now()\<close>.
  \<^item> \<open>pathJoin\<close>, \<open>pathResolve\<close>, \<open>realpath\<close>, \<open>rmOutcome\<close>, \<open>unlinkOutcome\<close>:
    \<^verbatim>\<open>path.join\<close>, \<^verbatim>\<open>path.resolve\<close>, \<^verbatim>\<open>fs.promises.realpath\<close>, and whether
    \<^verbatim>\<open>fs.promises.rm\<close> and \<^verbatim>\<open>fs.promises.unlink\<close> succeed.
  \<^item> \<open>buildOutcome\<close>: lines 200-273, which build the auth strategy, the options and the
    client; the library's constructors can throw, \<^verbatim>\<open>new LocalAuth\<close> for one on a key that
    is no valid client id.
  \<^item> \<open>newClient\<close>: the identity of the object \<^verbatim>\<open>new Client(clientOptions)\<close> builds;
    \<open>launched\<close>: what \<^verbatim>\<open>client.pupBrowser\<close> holds once \<^verbatim>\<open>client.initialize()\<close> has
    settled (the browser may have started even when \<^verbatim>\<open>initialize\<close> fails);
    \<open>initializeOutcome\<close>: how \<^verbatim>\<open>initialize\<close> settles; \<open>readyFires\<close>: whether the client
    emits \<^verbatim>\<open>ready\<close> before that.
  \<^item> \<open>probe n\<close>: the pass of the probe loop entered with \<^verbatim>\<open>maxRetry = n\<close>;
    \<open>getState\<close>: \<^verbatim>\<open>client.getState()\<close>.
  \<^item> \<open>detachListeners\<close>: the two calls \<^verbatim>\<open>client.pupPage?.removeAllListeners(_)\<close>;
    \<open>isConnected n\<close>: the answer of the \<open>n\<close>-th call (from 0) of
    \<^verbatim>\<open>pupBrowser.isConnected()\<close>; \<open>closePages\<close>: the inner \<^verbatim>\<open>try\<close> block of
    \<^verbatim>\<open>reloadSession\<close> (lines 617-623).
  Calls whose failure the source catches and only logs (\<^verbatim>\<open>terminateWebSocketServer\<close>,
  \<^verbatim>\<open>client.destroy\<close>, \<^verbatim>\<open>client.logout\<close>) change nothing in the tables either way and
  have no field.
\<close>

subsection \<open>Signals and the process table\<close>

text \<open>\<^verbatim>\<open>SIGKILL\<close> cannot be caught: the process leaves the table, and the signal is
  logged.\<close>

definition sigkill :: "pid \<Rightarrow> world \<Rightarrow> world" where
  "sigkill p w = w\<lparr>procs := (procs w)(p := None), killed := killed w @ [p]\<rparr>"

text \<open>The browser \<^verbatim>\<open>client.initialize()\<close> starts is a new process.\<close>

definition spawn :: "pid option option \<Rightarrow> world \<Rightarrow> world" where
  "spawn b w = (case b of Some (Some p) \<Rightarrow> w\<lparr>procs := (procs w)(p \<mapsto> Signalable)\<rparr> | _ \<Rightarrow> w)"

subsection \<open>\<^verbatim>\<open>killBrowserProcess\<close> (lines 52-64)\<close>

definition killBrowserProcess :: "client_obj \<Rightarrow> world \<Rightarrow> world" where
  "killBrowserProcess c w =
     (case pupBrowser c of
        Some (Some p) \<Rightarrow> sigkill p w
      | _ \<Rightarrow> w)"

subsection \<open>\<^verbatim>\<open>killOrphanedBrowserByLockFile\<close> (lines 66-106)\<close>

definition is_digit :: "char \<Rightarrow> bool" where
  "is_digit c = (c \<in> set ''0123456789'')"

definition digit_val :: "char \<Rightarrow> nat" where
  "digit_val c = of_char c - 48"

definition parseInt10 :: "string \<Rightarrow> nat" where
  "parseInt10 ds = foldl (\<lambda>n c. 10 * n + digit_val c) 0 ds"

text \<open>\<^verbatim>\<open>linkTarget.match(/-(\d+)$/)\<close> and \<^verbatim>\<open>parseInt(match[1], 10)\<close>: the target ends with
  a hyphen and one or more decimal digits. The digits are the longest run of digits at
  the end (a shorter run is preceded by a digit, not by the hyphen).\<close>

definition lockPid :: "string \<Rightarrow> pid option" where
  "lockPid linkTarget =
     (let ds = rev (takeWhile is_digit (rev linkTarget));
          front = rev (dropWhile is_digit (rev linkTarget))
      in if ds \<noteq> [] \<and> front \<noteq> [] \<and> last front = CHR ''-''
         then Some (parseInt10 ds) else None)"

text \<open>Lines 74-83: \<^verbatim>\<open>readlink\<close> throws on an entry that is no link, and \<open>pid\<close> stays
  null.\<close>

definition readLockPid :: "lockfile \<Rightarrow> pid option" where
  "readLockPid f = (case f of Symlink linkTarget \<Rightarrow> lockPid linkTarget | NotALink \<Rightarrow> None)"

text \<open>Lines 85-98: \<^verbatim>\<open>if (pid)\<close> skips null and 0; \<^verbatim>\<open>process.kill(pid, 0)\<close> throws when
  there is no such process or no permission, and the \<^verbatim>\<open>catch\<close> only logs.\<close>

definition killLockOwner :: "pid option \<Rightarrow> world \<Rightarrow> world" where
  "killLockOwner pid w =
     (case pid of
        None \<Rightarrow> w
      | Some p \<Rightarrow> if p \<noteq> 0 \<and> procs w p = Some Signalable then sigkill p w else w)"

text \<open>Lines 68 and 276: \<^verbatim>\<open>path.resolve(path.join(sessionFolderPath,
  `session-${sessionId}`, 'SingletonLock'))\<close>. No \<^verbatim>\<open>realpath\<close> is taken of it, and it
  is compared with nothing.\<close>

definition singletonLockPath :: "env \<Rightarrow> sessionId \<Rightarrow> string" where
  "singletonLockPath e sessionId =
     pathResolve e
       (pathJoin e (pathJoin e (sessionFolderPath e) (''session-'' @ sessionId))
          ''SingletonLock'')"

text \<open>An \<^verbatim>\<open>fs.promises.unlink(singletonLockPath)\<close> that succeeds: the entry is gone.\<close>

definition remove_lock :: "env \<Rightarrow> sessionId \<Rightarrow> world \<Rightarrow> world" where
  "remove_lock e sessionId w =
     w\<lparr>lockFiles := (lockFiles w)(sessionId := None),
       unlinked := unlinked w @ [singletonLockPath e sessionId]\<rparr>"

text \<open>Line 100: \<^verbatim>\<open>unlink(singletonLockPath).catch(() => { })\<close>.\<close>

definition unlinkLock :: "env \<Rightarrow> sessionId \<Rightarrow> world \<Rightarrow> world" where
  "unlinkLock e sessionId w =
     (case unlinkOutcome e of
        Returns _ \<Rightarrow> remove_lock e sessionId w
      | Throws _ \<Rightarrow> w)"

definition killOrphanedBrowserByLockFile :: "env \<Rightarrow> sessionId \<Rightarrow> world \<Rightarrow> bool \<times> world" where
  "killOrphanedBrowserByLockFile e sessionId w =
     (case lockFiles w sessionId of
        None \<Rightarrow> (False, w)
      | Some f \<Rightarrow> (True, unlinkLock e sessionId (killLockOwner (readLockPid f) w)))"

subsection \<open>The session lock (lines 17-26)\<close>

text \<open>\<^verbatim>\<open>acquireSessionLock\<close> polls every 200 ms while the table holds a true value for
  the key. Run by itself, with nothing else to release the lock, it never returns when the
  lock is taken: the value \<open>None\<close>.\<close>

partial_function (option) acquireSessionLock :: "sessionId \<Rightarrow> world \<Rightarrow> world option" where
  "acquireSessionLock sessionId w =
     (if sessionLocks w sessionId = Some True then acquireSessionLock sessionId w
      else Some (w\<lparr>sessionLocks := (sessionLocks w)(sessionId \<mapsto> True)\<rparr>))"

definition releaseSessionLock :: "sessionId \<Rightarrow> world \<Rightarrow> world" where
  "releaseSessionLock sessionId w = w\<lparr>sessionLocks := (sessionLocks w)(sessionId := None)\<rparr>"


subsection \<open>\<^verbatim>\<open>setupSession\<close> (lines 186-313)\<close>

record reply =
  success :: bool
  message :: string

record setup_reply = reply +
  client :: "client_obj option"

text \<open>Lines 188-197, which run without an \<^verbatim>\<open>await\<close>: the two membership tests and
  \<^verbatim>\<open>pendingSessions.add\<close>. The first component is the reply of an early return.\<close>

definition setup_reserve :: "sessionId \<Rightarrow> world \<Rightarrow> setup_reply option \<times> world" where
  "setup_reserve sessionId w =
     (case sessions w sessionId of
        Some c \<Rightarrow>
          (Some \<lparr>success = False, message = ''Session already exists for: '' @ sessionId,
                 client = Some c\<rparr>, w)
      | None \<Rightarrow>
          if sessionId \<in> pendingSessions w then
            (Some \<lparr>success = False,
                   message = ''Session initialization already in progress for: '' @ sessionId,
                   client = None\<rparr>, w)
          else (None, w\<lparr>pendingSessions := insert sessionId (pendingSessions w)\<rparr>))"

text \<open>\<^verbatim>\<open>pendingSessions.delete(sessionId)\<close>.\<close>

definition pending_delete :: "sessionId \<Rightarrow> world \<Rightarrow> world" where
  "pending_delete sessionId w = w\<lparr>pendingSessions := pendingSessions w - {sessionId}\<rparr>"

text \<open>Lines 306-307, which follow the \<^verbatim>\<open>await\<close> of \<^verbatim>\<open>initialize\<close> without another one
  between them.\<close>

definition setup_complete :: "sessionId \<Rightarrow> client_obj \<Rightarrow> world \<Rightarrow> world" where
  "setup_complete sessionId c w =
     pending_delete sessionId (w\<lparr>sessions := (sessions w)(sessionId \<mapsto> c)\<rparr>)"

text \<open>\<^verbatim>\<open>restartAttempts.delete(sessionId)\<close>: line 291, in the handler of \<^verbatim>\<open>ready\<close>, and
  lines 670 and 718.\<close>

definition attempts_delete :: "sessionId \<Rightarrow> world \<Rightarrow> world" where
  "attempts_delete sessionId w = w\<lparr>restartAttempts := (restartAttempts w)(sessionId := None)\<rparr>"

text \<open>Lines 275-287: with \<^verbatim>\<open>releaseBrowserLock\<close> set, a \<^verbatim>\<open>SingletonLock\<close> found by
  \<^verbatim>\<open>lstat\<close> is removed unless the key is in \<^verbatim>\<open>sessions\<close>; this \<^verbatim>\<open>unlink\<close> has no
  \<^verbatim>\<open>catch\<close> of its own.\<close>

definition release_stale_lock :: "env \<Rightarrow> sessionId \<Rightarrow> world \<Rightarrow> world outcome" where
  "release_stale_lock e sessionId w =
     (if releaseBrowserLock e then
        (case lockFiles w sessionId of
           None \<Rightarrow> Returns w
         | Some _ \<Rightarrow>
             if sessions w sessionId \<noteq> None then Returns w
             else (case unlinkOutcome e of
                     Returns _ \<Rightarrow> Returns (remove_lock e sessionId w)
                   | Throws msg \<Rightarrow> Throws msg))
      else Returns w)"

text \<open>Lines 289-298 up to the \<^verbatim>\<open>await\<close>: the client object and what launching it does
  to the world.\<close>

definition start_initialize :: "env \<Rightarrow> sessionId \<Rightarrow> world \<Rightarrow> client_obj \<times> world" where
  "start_initialize e sessionId w =
     (let c = \<lparr>clientId = newClient e, pupBrowser = launched e\<rparr>;
          w1 = spawn (launched e) w
      in (c, if readyFires e then attempts_delete sessionId w1 else w1))"

definition setup_failed :: "string \<Rightarrow> setup_reply" where
  "setup_failed msg = \<lparr>success = False, message = msg, client = None\<rparr>"

definition setup_started :: "client_obj \<Rightarrow> setup_reply" where
  "setup_started c =
     \<lparr>success = True, message = ''Session initiated successfully'', client = Some c\<rparr>"

definition setupSession :: "env \<Rightarrow> sessionId \<Rightarrow> world \<Rightarrow> setup_reply \<times> world" where
  "setupSession e sessionId w =
     (case setup_reserve sessionId w of
        (Some r, w0) \<Rightarrow> (r, w0)
      | (None, w1) \<Rightarrow>
          (case buildOutcome e of
             Throws msg \<Rightarrow> (setup_failed msg, pending_delete sessionId w1)
           | Returns _ \<Rightarrow>
               (case release_stale_lock e sessionId w1 of
                  Throws msg \<Rightarrow> (setup_failed msg, pending_delete sessionId w1)
                | Returns w2 \<Rightarrow>
                    (let (c, w3) = start_initialize e sessionId w2
                     in case initializeOutcome e of
                          Throws msg \<Rightarrow>
                            (setup_failed msg,
                             pending_delete sessionId
                               (pending_delete sessionId (killBrowserProcess c w3)))
                        | Returns _ \<Rightarrow>
                            (setup_started c, setup_complete sessionId c w3)))))"

subsection \<open>\<^verbatim>\<open>validateSession\<close> (lines 109-159)\<close>

record validation = reply +
  state :: "string option"

datatype loop_exit = Break | Return validation

text \<open>The loop of lines 126-142. It leaves through \<^verbatim>\<open>break\<close> or through a
  \<^verbatim>\<open>return\<close>; only a pass that throws goes round again.\<close>

partial_function (option) probe_loop :: "env \<Rightarrow> nat \<Rightarrow> loop_exit option" where
  "probe_loop e maxRetry =
     (case probe e maxRetry of
        PageClosed \<Rightarrow>
          Some (Return \<lparr>success = False, message = ''browser tab closed'', state = None\<rparr>)
      | RoundTripDone \<Rightarrow> Some Break
      | RoundTripTimeout \<Rightarrow> Some Break
      | AttemptThrows \<Rightarrow>
          if maxRetry = 2 then
            Some (Return \<lparr>success = False, message = ''session closed'', state = None\<rparr>)
          else probe_loop e (maxRetry + 1))"

definition validateSession :: "env \<Rightarrow> sessionId \<Rightarrow> world \<Rightarrow> validation option" where
  "validateSession e sessionId w =
     (case sessions w sessionId of
        None \<Rightarrow> Some \<lparr>success = False, message = ''session_not_found'', state = None\<rparr>
      | Some c \<Rightarrow>
          (case probe_loop e 0 of
             None \<Rightarrow> None
           | Some (Return v) \<Rightarrow> Some v
           | Some Break \<Rightarrow>
               Some (case getState e of
                       Throws msg \<Rightarrow> \<lparr>success = False, message = msg, state = None\<rparr>
                     | Returns st \<Rightarrow>
                         if st \<noteq> Some ''CONNECTED'' then
                           \<lparr>success = False, message = ''session_not_connected'', state = st\<rparr>
                         else
                           \<lparr>success = True, message = ''session_connected'', state = st\<rparr>)))"

subsection \<open>\<^verbatim>\<open>deleteSessionFolder\<close> (lines 587-605)\<close>

text \<open>\<^verbatim>\<open>path.sep\<close> on the POSIX systems the module is written for (it reads Chrome's
  \<^verbatim>\<open>SingletonLock\<close> link and sends Unix signals). The two \<^verbatim>\<open>realpath\<close> calls resolve
  links and dots, so that a resolved target lies below the resolved folder exactly when it
  starts with the folder's path and the separator.\<close>

definition path_sep :: string where
  "path_sep = ''/''"

definition deleteSessionFolder :: "env \<Rightarrow> sessionId \<Rightarrow> world \<Rightarrow> unit outcome \<times> world" where
  "deleteSessionFolder e sessionId w =
     (let targetDirPath = pathJoin e (sessionFolderPath e) (''session-'' @ sessionId)
      in case realpath e targetDirPath of
           Throws msg \<Rightarrow> (Throws msg, w)
         | Returns resolvedTargetDirPath \<Rightarrow>
             (case realpath e (sessionFolderPath e) of
                Throws msg \<Rightarrow> (Throws msg, w)
              | Returns resolvedSessionPath \<Rightarrow>
                  (let safeSessionPath = resolvedSessionPath @ path_sep
                   in if \<not> prefix safeSessionPath resolvedTargetDirPath then
                        (Throws ''Invalid path: Directory traversal detected'', w)
                      else
                        (rmOutcome e, w\<lparr>rmCalls := rmCalls w @ [resolvedTargetDirPath]\<rparr>))))"

subsection \<open>Teardown, reload and recovery\<close>

text \<open>\<^verbatim>\<open>client.pupBrowser?.isConnected()\<close>, at its \<open>n\<close>-th call.\<close>

definition connected :: "env \<Rightarrow> client_obj \<Rightarrow> nat \<Rightarrow> bool" where
  "connected e c n = (pupBrowser c \<noteq> None \<and> isConnected e n)"

text \<open>The loop of lines 660-664: the test is evaluated with \<open>maxDelay = 0, 1, ...\<close>, so the
  pass with \<open>maxDelay = n\<close> makes call \<open>n\<close>. The result is the final \<open>maxDelay\<close>.\<close>

function wait_disconnect :: "env \<Rightarrow> client_obj \<Rightarrow> nat \<Rightarrow> nat" where
  "wait_disconnect e c maxDelay =
     (if connected e c maxDelay \<and> maxDelay < 10 then wait_disconnect e c (maxDelay + 1)
      else maxDelay)"
  by pat_completeness auto
termination
  by (relation "measure (\<lambda>(e, c, maxDelay). 10 - maxDelay)") auto

text \<open>Lines 660-667.\<close>

definition force_stop :: "env \<Rightarrow> client_obj \<Rightarrow> world \<Rightarrow> world" where
  "force_stop e c w =
     (let maxDelay = wait_disconnect e c 0
      in if connected e c (maxDelay + 1) then killBrowserProcess c w else w)"

text \<open>\<^verbatim>\<open>sessions.delete(sessionId); pendingSessions.delete(sessionId)\<close>, and with
  \<^verbatim>\<open>restartAttempts.delete(sessionId)\<close> after them (lines 668-670).\<close>

definition registry_drop :: "sessionId \<Rightarrow> world \<Rightarrow> world" where
  "registry_drop sessionId w =
     pending_delete sessionId (w\<lparr>sessions := (sessions w)(sessionId := None)\<rparr>)"

definition registry_cleanup :: "sessionId \<Rightarrow> world \<Rightarrow> world" where
  "registry_cleanup sessionId w = attempts_delete sessionId (registry_drop sessionId w)"

text \<open>The \<^verbatim>\<open>finally\<close> block of the locked operations.\<close>

definition finally_release :: "sessionId \<Rightarrow> 'a \<times> world \<Rightarrow> 'a \<times> world" where
  "finally_release sessionId rw = (fst rw, releaseSessionLock sessionId (snd rw))"

text \<open>\<^verbatim>\<open>destroySession\<close> (lines 638-677): the \<^verbatim>\<open>try\<close> block, then the whole.\<close>

definition destroy_body :: "env \<Rightarrow> sessionId \<Rightarrow> world \<Rightarrow> unit outcome \<times> world" where
  "destroy_body e sessionId w =
     (case sessions w sessionId of
        None \<Rightarrow>
          (Returns (), pending_delete sessionId (snd (killOrphanedBrowserByLockFile e sessionId w)))
      | Some c \<Rightarrow>
          (case detachListeners e of
             Throws msg \<Rightarrow> (Throws msg, w)
           | Returns _ \<Rightarrow> (Returns (), registry_cleanup sessionId (force_stop e c w))))"

definition destroySession :: "env \<Rightarrow> sessionId \<Rightarrow> world \<Rightarrow> (unit outcome \<times> world) option" where
  "destroySession e sessionId w =
     map_option (\<lambda>w1. finally_release sessionId (destroy_body e sessionId w1))
       (acquireSessionLock sessionId w)"

text \<open>\<^verbatim>\<open>deleteSession\<close> (lines 679-726). The argument \<open>v\<close> chooses between
  \<^verbatim>\<open>client.logout()\<close> and \<^verbatim>\<open>client.destroy()\<close>, whose failures are caught.\<close>

definition delete_body ::
  "env \<Rightarrow> sessionId \<Rightarrow> validation \<Rightarrow> world \<Rightarrow> unit outcome \<times> world" where
  "delete_body e sessionId v w =
     (case sessions w sessionId of
        None \<Rightarrow>
          (Returns (),
           snd (deleteSessionFolder e sessionId
                  (pending_delete sessionId
                     (snd (killOrphanedBrowserByLockFile e sessionId w)))))
      | Some c \<Rightarrow>
          (case detachListeners e of
             Throws msg \<Rightarrow> (Throws msg, w)
           | Returns _ \<Rightarrow>
               deleteSessionFolder e sessionId
                 (registry_cleanup sessionId (force_stop e c w))))"

definition deleteSession ::
  "env \<Rightarrow> sessionId \<Rightarrow> validation \<Rightarrow> world \<Rightarrow> (unit outcome \<times> world) option" where
  "deleteSession e sessionId v w =
     map_option (\<lambda>w1. finally_release sessionId (delete_body e sessionId v w1))
       (acquireSessionLock sessionId w)"

text \<open>\<^verbatim>\<open>reloadSession\<close> (lines 608-636).\<close>

definition reload_body :: "env \<Rightarrow> sessionId \<Rightarrow> world \<Rightarrow> unit outcome \<times> world" where
  "reload_body e sessionId w =
     (case sessions w sessionId of
        None \<Rightarrow> (Returns (), w)
      | Some c \<Rightarrow>
          (case detachListeners e of
             Throws msg \<Rightarrow> (Throws msg, w)
           | Returns _ \<Rightarrow>
               (let w1 = (case closePages e of
                            Throws _ \<Rightarrow> killBrowserProcess c w
                          | Returns _ \<Rightarrow> w)
                in (Returns (), snd (setupSession e sessionId (registry_drop sessionId w1))))))"

definition reloadSession :: "env \<Rightarrow> sessionId \<Rightarrow> world \<Rightarrow> (unit outcome \<times> world) option" where
  "reloadSession e sessionId w =
     map_option (\<lambda>w1. finally_release sessionId (reload_body e sessionId w1))
       (acquireSessionLock sessionId w)"

text \<open>\<^verbatim>\<open>safeRestartSession\<close> (lines 321-343), the handler of the page's \<^verbatim>\<open>close\<close> and
  \<^verbatim>\<open>error\<close> events; \<open>c\<close> is the client the handler was registered for. Its \<^verbatim>\<open>try\<close>
  block catches and logs, so the function returns nothing and throws nothing.\<close>

definition restart_body :: "env \<Rightarrow> sessionId \<Rightarrow> client_obj \<Rightarrow> world \<Rightarrow> unit outcome \<times> world" where
  "restart_body e sessionId c w =
     (Returns (),
      snd (setupSession e sessionId (killBrowserProcess c (registry_drop sessionId w))))"

definition safeRestartSession ::
  "env \<Rightarrow> sessionId \<Rightarrow> client_obj \<Rightarrow> world \<Rightarrow> (unit outcome \<times> world) option" where
  "safeRestartSession e sessionId c w =
     (case canRestart (clock e) sessionId w of
        (False, w1) \<Rightarrow> Some (Returns (), killBrowserProcess c (registry_drop sessionId w1))
      | (True, w1) \<Rightarrow>
          map_option (\<lambda>w2. finally_release sessionId (restart_body e sessionId c w2))
            (acquireSessionLock sessionId w1))"


subsection \<open>The stretches of code between two \<^verbatim>\<open>await\<close>s\<close>

text \<open>
  The functions above run one call from its start to its end, with nothing else in
  between. In the running server calls overlap: a call gives way at each \<^verbatim>\<open>await\<close>, and
  only there, and another call's stretch of code may run before it goes on. Each
  constructor below is what one such stretch, or a part of one, does to the world:
  \<^item> \<open>SetupReserve\<close>: lines 188-197; \<open>UnlinkLock\<close>: the removal of the
    \<^verbatim>\<open>SingletonLock\<close> awaited in lines 284 and 100;
    \<open>SetupLaunch\<close>: lines 289-298; \<open>SetupComplete\<close>: lines 306-307;
    \<open>KillBrowser\<close>: \<^verbatim>\<open>killBrowserProcess\<close>, from lines 301, 326, 335, 625, 666, 714;
    \<open>PendingDelete\<close>: lines 302, 310, 645, 686;
  \<^item> \<open>Ready\<close>: line 291; \<open>CanRestart\<close>: line 322;
    \<open>RegistryDrop\<close>: lines 324-325, 332-333, 627-628;
    \<open>RegistryCleanup\<close>: lines 668-670, 716-718;
  \<^item> \<open>KillLockOwner\<close>: lines 85-98, with the pid read from the lock file;
    \<open>RemoveFolder\<close>: \<^verbatim>\<open>deleteSessionFolder\<close>; \<open>AcquireLock\<close>: one pass of lines 18-21 (the
    lock is taken when it is free, and nothing happens otherwise); \<open>ReleaseLock\<close>:
    line 25.
  Every write to \<^verbatim>\<open>sessions\<close> and \<^verbatim>\<open>pendingSessions\<close> in the module is in one of these
  stretches. A run of the server is a sequence of them, in some order.
\<close>

datatype action =
    SetupReserve sessionId
  | UnlinkLock env sessionId
  | SetupLaunch env sessionId
  | SetupComplete sessionId client_obj
  | KillBrowser client_obj
  | PendingDelete sessionId
  | Ready sessionId
  | CanRestart int sessionId
  | RegistryDrop sessionId
  | RegistryCleanup sessionId
  | KillLockOwner "pid option"
  | RemoveFolder env sessionId
  | AcquireLock sessionId
  | ReleaseLock sessionId

fun perform :: "action \<Rightarrow> world \<Rightarrow> world" where
  "perform (SetupReserve k) w = snd (setup_reserve k w)"
| "perform (UnlinkLock e k) w = remove_lock e k w"
| "perform (SetupLaunch e k) w = snd (start_initialize e k w)"
| "perform (SetupComplete k c) w = setup_complete k c w"
| "perform (KillBrowser c) w = killBrowserProcess c w"
| "perform (PendingDelete k) w = pending_delete k w"
| "perform (Ready k) w = attempts_delete k w"
| "perform (CanRestart now k) w = snd (canRestart now k w)"
| "perform (RegistryDrop k) w = registry_drop k w"
| "perform (RegistryCleanup k) w = registry_cleanup k w"
| "perform (KillLockOwner p) w = killLockOwner p w"
| "perform (RemoveFolder e k) w = snd (deleteSessionFolder e k w)"
| "perform (AcquireLock k) w =
     (if sessionLocks w k = Some True then w
      else w\<lparr>sessionLocks := (sessionLocks w)(k \<mapsto> True)\<rparr>)"
| "perform (ReleaseLock k) w = releaseSessionLock k w"

definition run_actions :: "action list \<Rightarrow> world \<Rightarrow> world" where
  "run_actions acts w = foldl (\<lambda>w a. perform a w) w acts"

text \<open>No key is in \<^verbatim>\<open>sessions\<close> and in \<^verbatim>\<open>pendingSessions\<close>.\<close>

definition registry_disjoint :: "world \<Rightarrow> bool" where
  "registry_disjoint w = (dom (sessions w) \<inter> pendingSessions w = {})"

subsection \<open>Overlapping calls of \<^verbatim>\<open>setupSession\<close>\<close>

text \<open>
  Where a call of \<^verbatim>\<open>setupSession\<close> stands: at its start, at one of its four
  \<^verbatim>\<open>await\<close>s (of \<^verbatim>\<open>lstat\<close>, line 277; of \<^verbatim>\<open>unlink\<close>, line 284; of
  \<^verbatim>\<open>client.initialize()\<close>, line 298, with the client it launched; of
  \<^verbatim>\<open>killBrowserProcess\<close>, line 301, with the message of the error it will rethrow), or
  returned: with one of the two replies of lines 189 and 194, with the reply of line 311,
  or with the reply of line 308.
\<close>

datatype setup_pc =
    Entry
  | AwaitLstat
  | AwaitUnlink
  | AwaitInitialize client_obj
  | AwaitKill string
  | Conflict setup_reply
  | Failed setup_reply
  | Started setup_reply

definition launch :: "env \<Rightarrow> sessionId \<Rightarrow> world \<Rightarrow> setup_pc \<times> world" where
  "launch e sessionId w =
     (let (c, w') = start_initialize e sessionId w in (AwaitInitialize c, w'))"

text \<open>The stretch of code a call runs from where it stands to its next \<^verbatim>\<open>await\<close> or
  to its return. What an awaited operation did is seen when the call resumes.\<close>

fun setup_step :: "env \<Rightarrow> sessionId \<Rightarrow> setup_pc \<Rightarrow> world \<Rightarrow> setup_pc \<times> world" where
  "setup_step e sessionId Entry w =
     (case setup_reserve sessionId w of
        (Some r, w0) \<Rightarrow> (Conflict r, w0)
      | (None, w1) \<Rightarrow>
          (case buildOutcome e of
             Throws msg \<Rightarrow> (Failed (setup_failed msg), pending_delete sessionId w1)
           | Returns _ \<Rightarrow>
               if releaseBrowserLock e then (AwaitLstat, w1) else launch e sessionId w1))"
| "setup_step e sessionId AwaitLstat w =
     (case lockFiles w sessionId of
        None \<Rightarrow> launch e sessionId w
      | Some _ \<Rightarrow>
          if sessions w sessionId \<noteq> None then launch e sessionId w else (AwaitUnlink, w))"
| "setup_step e sessionId AwaitUnlink w =
     (case unlinkOutcome e of
        Returns _ \<Rightarrow> launch e sessionId (remove_lock e sessionId w)
      | Throws msg \<Rightarrow> (Failed (setup_failed msg), pending_delete sessionId w))"
| "setup_step e sessionId (AwaitInitialize c) w =
     (case initializeOutcome e of
        Returns _ \<Rightarrow> (Started (setup_started c), setup_complete sessionId c w)
      | Throws msg \<Rightarrow> (AwaitKill msg, killBrowserProcess c w))"
| "setup_step e sessionId (AwaitKill msg) w =
     (Failed (setup_failed msg), pending_delete sessionId (pending_delete sessionId w))"
| "setup_step e sessionId (Conflict r) w = (Conflict r, w)"
| "setup_step e sessionId (Failed r) w = (Failed r, w)"
| "setup_step e sessionId (Started r) w = (Started r, w)"

text \<open>Several calls for one key, each with the answers it will meet. A schedule names,
  step by step, the call that runs its next stretch; a call that has returned, or a
  number that names no call, changes nothing.\<close>

type_synonym setup_call = "env \<times> setup_pc"

definition sched_step ::
  "sessionId \<Rightarrow> world \<times> setup_call list \<Rightarrow> nat \<Rightarrow> world \<times> setup_call list" where
  "sched_step sessionId cfg i =
     (let (w, calls) = cfg
      in if i < length calls then
           (let (e, pc) = calls ! i;
                (pc', w') = setup_step e sessionId pc w
            in (w', calls[i := (e, pc')]))
         else (w, calls))"

definition run_setups ::
  "sessionId \<Rightarrow> nat list \<Rightarrow> env list \<Rightarrow> world \<Rightarrow> world \<times> setup_call list" where
  "run_setups sessionId sched es w =
     foldl (sched_step sessionId) (w, map (\<lambda>e. (e, Entry)) es) sched"

text \<open>A call between its reservation and its return holds the key and has a worker of
  its own, launched or about to be. A returned call has started a worker, has met a
  conflict, or has failed.\<close>

fun in_flight :: "setup_pc \<Rightarrow> bool" where
  "in_flight AwaitLstat = True"
| "in_flight AwaitUnlink = True"
| "in_flight (AwaitInitialize c) = True"
| "in_flight (AwaitKill msg) = True"
| "in_flight pc = False"






text \<open>The reply a returned call has handed to its caller.\<close>

fun reply_of :: "setup_pc \<Rightarrow> setup_reply option" where
  "reply_of (Conflict r) = Some r"
| "reply_of (Failed r) = Some r"
| "reply_of (Started r) = Some r"
| "reply_of pc = None"



subsection \<open>Concrete worlds and answers\<close>

text \<open>An outside where everything works: the browser starts as process 100, paths
  resolve to themselves, the page answers and the client is connected.\<close>

definition quiet_env :: env where
  "quiet_env = \<lparr> clock = 0, releaseBrowserLock = True, sessionFolderPath = ''/data/sessions'',
     pathJoin = (\<lambda>a b. a @ ''/'' @ b), pathResolve = (\<lambda>p. p), realpath = Returns, rmOutcome = Returns (),
     unlinkOutcome = Returns (), buildOutcome = Returns (), newClient = 1,
     launched = Some (Some 100),
     initializeOutcome = Returns (), readyFires = False, probe = (\<lambda>n. RoundTripDone),
     getState = Returns (Some ''CONNECTED''), detachListeners = Returns (),
     isConnected = (\<lambda>n. False), closePages = Returns () \<rparr>"


text \<open>Session \<open>D\<close> is registered and its browser is process 4242. The directory of
  session \<open>C\<close>, which is not registered, still holds a \<^verbatim>\<open>SingletonLock\<close> that names
  4242, the pid its own browser had before the operating system gave the number to the
  browser of \<open>D\<close>.\<close>

definition orphan_world :: world where
  "orphan_world = init_world\<lparr>
     sessions := [''D'' \<mapsto> \<lparr>clientId = 1, pupBrowser = Some (Some 4242)\<rparr>],
     lockFiles := [''C'' \<mapsto> Symlink ''host-4242''],
     procs := [4242 \<mapsto> Signalable]\<rparr>"

text \<open>A resolved path lies strictly below the resolved session folder: it starts with
  the folder's path and a separator.\<close>

definition inside_root :: "env \<Rightarrow> string \<Rightarrow> bool" where
  "inside_root e p =
     (case realpath e (sessionFolderPath e) of
        Returns root \<Rightarrow> prefix (root @ path_sep) p \<and> strict_prefix root p
      | Throws _ \<Rightarrow> False)"

text \<open>Where the entry that \<open>singletonLockPath\<close> names lies: \<^verbatim>\<open>unlink\<close> follows the
  links on the way to the last component and removes the entry \<^verbatim>\<open>SingletonLock\<close> of the
  directory that \<^verbatim>\<open>session-<id>\<close> resolves to.\<close>

definition lockLocation :: "env \<Rightarrow> sessionId \<Rightarrow> string option" where
  "lockLocation e sessionId =
     (case realpath e (pathJoin e (sessionFolderPath e) (''session-'' @ sessionId)) of
        Returns dir \<Rightarrow> Some (dir @ path_sep @ ''SingletonLock'')
      | Throws _ \<Rightarrow> None)"

text \<open>The directory of session \<open>x\<close> is a link to \<open>/etc\<close>, and the directory it leads
  to holds a \<^verbatim>\<open>SingletonLock\<close> that names the live process 4242. The key \<open>x\<close> is not
  registered.\<close>

definition escape_env :: env where
  "escape_env =
     quiet_env\<lparr>realpath := (\<lambda>p. if p = ''/data/sessions/session-x'' then Returns ''/etc''
                                 else Returns p)\<rparr>"

definition escape_world :: world where
  "escape_world = init_world\<lparr>
     lockFiles := [''x'' \<mapsto> Symlink ''host-4242''],
     procs := [4242 \<mapsto> Signalable]\<rparr>"

subsection \<open>Where overlapping calls of \<^verbatim>\<open>setupSession\<close> stand together\<close>





subsection \<open>The worker processes of overlapping calls\<close>







subsection \<open>Calls of \<^verbatim>\<open>setupSession\<close> with a teardown between them\<close>




section \<open>Theorems\<close>

subsection \<open>Shared lemmas\<close>

lemma acquire_free:
  "sessionLocks w k \<noteq> Some True \<Longrightarrow>
   acquireSessionLock k w = Some (w\<lparr>sessionLocks := (sessionLocks w)(k \<mapsto> True)\<rparr>)"
  by (subst acquireSessionLock.simps) simp

lemma acquire_Some:
  "acquireSessionLock k w = Some w1 \<Longrightarrow>
     sessionLocks w k \<noteq> Some True \<and> w1 = w\<lparr>sessionLocks := (sessionLocks w)(k \<mapsto> True)\<rparr>"
  by (rule acquireSessionLock.raw_induct
        [where P = "\<lambda>k w w1. sessionLocks w k \<noteq> Some True
            \<and> w1 = w\<lparr>sessionLocks := (sessionLocks w)(k \<mapsto> True)\<rparr>"])
     (auto split: if_splits)

lemma acquire_held: "sessionLocks w k = Some True \<Longrightarrow> acquireSessionLock k w = None"
  using acquire_Some [of k w] by (cases "acquireSessionLock k w") auto

lemma lock_roundtrip:
  "sessionLocks w k = None \<Longrightarrow>
   releaseSessionLock k (w\<lparr>sessionLocks := (sessionLocks w)(k \<mapsto> True)\<rparr>) = w"
  by (simp add: releaseSessionLock_def fun_upd_idem)

lemma lockPid_example: "lockPid ''host-4242'' = Some 4242"
  by (simp add: lockPid_def is_digit_def parseInt10_def digit_val_def)

lemma sep_prefix_strict: "prefix (root @ ''/'') t \<Longrightarrow> strict_prefix root t"
  by (auto simp: prefix_def strict_prefix_def)

lemma folder_cases:
  "rmCalls (snd (deleteSessionFolder e k w)) = rmCalls w
   \<or> (\<exists>t. inside_root e t \<and> rmCalls (snd (deleteSessionFolder e k w)) = rmCalls w @ [t])"
  by (auto simp: deleteSessionFolder_def inside_root_def Let_def path_sep_def
        dest: sep_prefix_strict split: outcome.splits)

lemma rm_frame:
  "rmCalls (sigkill p w) = rmCalls w"
  "rmCalls (killBrowserProcess c w) = rmCalls w"
  "rmCalls (snd (killOrphanedBrowserByLockFile e k w)) = rmCalls w"
  "rmCalls (pending_delete k w) = rmCalls w"
  "rmCalls (registry_cleanup k w) = rmCalls w"
  "rmCalls (force_stop e c w) = rmCalls w"
  "rmCalls (releaseSessionLock k w) = rmCalls w"
  by (auto simp: sigkill_def killBrowserProcess_def killOrphanedBrowserByLockFile_def
        killLockOwner_def unlinkLock_def remove_lock_def pending_delete_def registry_cleanup_def
        registry_drop_def attempts_delete_def force_stop_def Let_def releaseSessionLock_def
        split: option.splits outcome.splits)

lemma delete_body_rm:
  "rmCalls (snd (delete_body e k v w)) = rmCalls w
   \<or> (\<exists>t. inside_root e t \<and> rmCalls (snd (delete_body e k v w)) = rmCalls w @ [t])"
proof (cases "sessions w k")
  case None
  then show ?thesis
    using folder_cases [of e k "pending_delete k (snd (killOrphanedBrowserByLockFile e k w))"]
    by (simp add: delete_body_def rm_frame)
next
  case (Some c)
  show ?thesis
  proof (cases "detachListeners e")
    case (Returns u)
    then show ?thesis
      using Some folder_cases [of e k "registry_cleanup k (force_stop e c w)"]
      by (simp add: delete_body_def rm_frame)
  next
    case (Throws msg)
    then show ?thesis using Some by (simp add: delete_body_def)
  qed
qed

text \<open>Teardown of a key that is not registered, when the lock is free: what is left is
  the orphan reaper and \<^verbatim>\<open>pendingSessions.delete\<close>.\<close>

lemma destroy_unregistered:
  assumes "sessions w k = None" and "sessionLocks w k = None"
  shows "destroySession e k w =
    Some (Returns (), pending_delete k (snd (killOrphanedBrowserByLockFile e k w)))"
proof -
  let ?w1 = "w\<lparr>sessionLocks := (sessionLocks w)(k \<mapsto> True)\<rparr>"
  have acq: "acquireSessionLock k w = Some ?w1"
    using assms(2) by (simp add: acquire_free)
  have body: "destroy_body e k ?w1 =
      (Returns (), pending_delete k (snd (killOrphanedBrowserByLockFile e k ?w1)))"
    using assms(1) by (simp add: destroy_body_def)
  have rel: "releaseSessionLock k (pending_delete k (snd (killOrphanedBrowserByLockFile e k ?w1)))
      = pending_delete k (snd (killOrphanedBrowserByLockFile e k w))"
    using assms(2)
    by (auto simp: releaseSessionLock_def pending_delete_def killOrphanedBrowserByLockFile_def
          killLockOwner_def unlinkLock_def remove_lock_def sigkill_def fun_upd_idem
          split: option.splits outcome.splits)
  show ?thesis
    by (simp add: destroySession_def acq body finally_release_def rel)
qed

text \<open>The same for \<^verbatim>\<open>deleteSession\<close>, which goes on to \<^verbatim>\<open>deleteSessionFolder\<close> and
  swallows its error.\<close>

lemma delete_unregistered:
  assumes "sessions w k = None" and "sessionLocks w k = None"
  shows "deleteSession e k v w =
    Some (Returns (),
          snd (deleteSessionFolder e k
                 (pending_delete k (snd (killOrphanedBrowserByLockFile e k w)))))"
proof -
  let ?w1 = "w\<lparr>sessionLocks := (sessionLocks w)(k \<mapsto> True)\<rparr>"
  have acq: "acquireSessionLock k w = Some ?w1"
    using assms(2) by (simp add: acquire_free)
  have body: "delete_body e k v ?w1 =
      (Returns (),
       snd (deleteSessionFolder e k
              (pending_delete k (snd (killOrphanedBrowserByLockFile e k ?w1)))))"
    using assms(1) by (simp add: delete_body_def)
  have rel: "releaseSessionLock k
        (snd (deleteSessionFolder e k
                (pending_delete k (snd (killOrphanedBrowserByLockFile e k ?w1)))))
      = snd (deleteSessionFolder e k
               (pending_delete k (snd (killOrphanedBrowserByLockFile e k w))))"
    using assms(2)
    by (auto simp: releaseSessionLock_def pending_delete_def killOrphanedBrowserByLockFile_def
          killLockOwner_def unlinkLock_def remove_lock_def sigkill_def deleteSessionFolder_def
          Let_def fun_upd_idem
          split: option.splits outcome.splits)
  show ?thesis
    by (simp add: deleteSession_def acq body finally_release_def rel)
qed

text \<open>Only the orphan reaper and \<^verbatim>\<open>setupSession\<close> unlink anything, and what they unlink
  is the \<^verbatim>\<open>SingletonLock\<close> of the key.\<close>

lemma unlinked_frame:
  "unlinked (sigkill p w) = unlinked w"
  "unlinked (killBrowserProcess c w) = unlinked w"
  "unlinked (killLockOwner q w) = unlinked w"
  "unlinked (pending_delete k w) = unlinked w"
  "unlinked (registry_cleanup k w) = unlinked w"
  "unlinked (force_stop e c w) = unlinked w"
  "unlinked (releaseSessionLock k w) = unlinked w"
  "unlinked (snd (deleteSessionFolder e k w)) = unlinked w"
  by (auto simp: sigkill_def killBrowserProcess_def killLockOwner_def pending_delete_def
        registry_cleanup_def registry_drop_def attempts_delete_def force_stop_def Let_def
        releaseSessionLock_def deleteSessionFolder_def
        split: option.splits outcome.splits)

lemma reaper_unlinked:
  "unlinked (snd (killOrphanedBrowserByLockFile e k w)) = unlinked w
   \<or> lockFiles w k \<noteq> None
       \<and> unlinked (snd (killOrphanedBrowserByLockFile e k w))
           = unlinked w @ [singletonLockPath e k]"
  by (auto simp: killOrphanedBrowserByLockFile_def unlinkLock_def remove_lock_def
        unlinked_frame split: option.splits outcome.splits)

lemma delete_body_unlinked:
  "unlinked (snd (delete_body e k v w)) = unlinked w
   \<or> sessions w k = None \<and> lockFiles w k \<noteq> None
       \<and> unlinked (snd (delete_body e k v w)) = unlinked w @ [singletonLockPath e k]"
proof (cases "sessions w k")
  case None
  then show ?thesis
    using reaper_unlinked [of e k w]
    by (auto simp: delete_body_def unlinked_frame)
next
  case (Some c)
  then show ?thesis
    by (cases "detachListeners e") (simp_all add: delete_body_def unlinked_frame)
qed

text \<open>The probe loop, started with \<open>maxRetry = 0\<close>, makes at most three passes.\<close>

lemma probe_loop_closed_form:
  "probe_loop e 0 = Some
     (case probe e 0 of
        PageClosed \<Rightarrow> Return \<lparr>success = False, message = ''browser tab closed'', state = None\<rparr>
      | RoundTripDone \<Rightarrow> Break
      | RoundTripTimeout \<Rightarrow> Break
      | AttemptThrows \<Rightarrow>
        (case probe e 1 of
           PageClosed \<Rightarrow> Return \<lparr>success = False, message = ''browser tab closed'', state = None\<rparr>
         | RoundTripDone \<Rightarrow> Break
         | RoundTripTimeout \<Rightarrow> Break
         | AttemptThrows \<Rightarrow>
           (case probe e 2 of
              PageClosed \<Rightarrow> Return \<lparr>success = False, message = ''browser tab closed'', state = None\<rparr>
            | RoundTripDone \<Rightarrow> Break
            | RoundTripTimeout \<Rightarrow> Break
            | AttemptThrows \<Rightarrow>
                Return \<lparr>success = False, message = ''session closed'', state = None\<rparr>)))"
proof -
  have two: "probe_loop e 2 = Some
     (case probe e 2 of
        PageClosed \<Rightarrow> Return \<lparr>success = False, message = ''browser tab closed'', state = None\<rparr>
      | RoundTripDone \<Rightarrow> Break
      | RoundTripTimeout \<Rightarrow> Break
      | AttemptThrows \<Rightarrow> Return \<lparr>success = False, message = ''session closed'', state = None\<rparr>)"
    by (subst probe_loop.simps) (simp split: attempt.splits)
  have one: "probe_loop e 1 =
     (case probe e 1 of
        PageClosed \<Rightarrow> Some (Return \<lparr>success = False, message = ''browser tab closed'', state = None\<rparr>)
      | RoundTripDone \<Rightarrow> Some Break
      | RoundTripTimeout \<Rightarrow> Some Break
      | AttemptThrows \<Rightarrow> probe_loop e 2)"
    by (subst probe_loop.simps) (simp add: numeral_2_eq_2 split: attempt.splits)
  have zero: "probe_loop e 0 =
     (case probe e 0 of
        PageClosed \<Rightarrow> Some (Return \<lparr>success = False, message = ''browser tab closed'', state = None\<rparr>)
      | RoundTripDone \<Rightarrow> Some Break
      | RoundTripTimeout \<Rightarrow> Some Break
      | AttemptThrows \<Rightarrow> probe_loop e 1)"
    by (subst probe_loop.simps) (simp split: attempt.splits)
  show ?thesis
    by (simp only: zero one two split: attempt.splits) simp
qed


subsection \<open>C2: the restart decision\<close>

text \<open>
  C2. \<^verbatim>\<open>canRestart(sessionId)\<close> is the four-rule decision. (1) With no record, or when
  \<open>now - firstAttempt\<close> exceeds 120 s, the record becomes \<open>{count 1, firstAttempt now,
  lastAttempt now}\<close> and the answer is yes. (2) Otherwise, with \<open>count \<ge> 3\<close> the answer is
  no and nothing changes. (3) Otherwise, with \<open>now - lastAttempt < 30 s\<close> the answer is no
  and nothing changes, the count included. (4) Otherwise the count goes up by one,
  \<open>lastAttempt\<close> becomes \<open>now\<close>, and the answer is yes. On a key with no record, signals
  at 0 s, 10 s, 40 s, 70 s, 100 s and 130 s (counted from any clock value \<open>t0\<close>) are
  answered yes (count 1), no, yes (count 2), yes (count 3), no, yes (count 1 again).
\<close>

theorem canRestart_four_rules:
  "(restartAttempts w k = None \<or>
      (\<exists>a. restartAttempts w k = Some a \<and> now - firstAttempt a > 120000)
    \<longrightarrow> canRestart now k w =
          (True, w\<lparr>restartAttempts := (restartAttempts w)(k \<mapsto>
                     \<lparr>count = 1, firstAttempt = now, lastAttempt = now\<rparr>)\<rparr>))
   \<and> (restartAttempts w k = Some a \<and> now - firstAttempt a \<le> 120000 \<and> count a \<ge> 3
    \<longrightarrow> canRestart now k w = (False, w))
   \<and> (restartAttempts w k = Some a \<and> now - firstAttempt a \<le> 120000 \<and> count a < 3
        \<and> now - lastAttempt a < 30000
    \<longrightarrow> canRestart now k w = (False, w))
   \<and> (restartAttempts w k = Some a \<and> now - firstAttempt a \<le> 120000 \<and> count a < 3
        \<and> now - lastAttempt a \<ge> 30000
    \<longrightarrow> canRestart now k w =
          (True, w\<lparr>restartAttempts := (restartAttempts w)(k \<mapsto>
                     a\<lparr>count := count a + 1, lastAttempt := now\<rparr>)\<rparr>))
   \<and> (restartAttempts w k = None
    \<longrightarrow> restart_run k [t0, t0 + 10000, t0 + 40000, t0 + 70000, t0 + 100000, t0 + 130000] w =
          [(True, Some 1), (False, Some 1), (True, Some 2), (True, Some 3),
           (False, Some 3), (True, Some 1)])"
  by (auto simp: canRestart_def MAX_RESTART_ATTEMPTS_def RESTART_COOLDOWN_MS_def
        RESTART_RESET_MS_def)

theorem canRestart_four_rules_witness:
  "canRestart 0 ''a'' init_world =
     (True, init_world\<lparr>restartAttempts :=
        [''a'' \<mapsto> \<lparr>count = 1, firstAttempt = 0, lastAttempt = 0\<rparr>]\<rparr>)
   \<and> canRestart 100000
        ''a'' (init_world\<lparr>restartAttempts :=
                 [''a'' \<mapsto> \<lparr>count = 3, firstAttempt = 0, lastAttempt = 70000\<rparr>]\<rparr>)
      = (False, init_world\<lparr>restartAttempts :=
                 [''a'' \<mapsto> \<lparr>count = 3, firstAttempt = 0, lastAttempt = 70000\<rparr>]\<rparr>)
   \<and> canRestart 10000
        ''a'' (init_world\<lparr>restartAttempts :=
                 [''a'' \<mapsto> \<lparr>count = 1, firstAttempt = 0, lastAttempt = 0\<rparr>]\<rparr>)
      = (False, init_world\<lparr>restartAttempts :=
                 [''a'' \<mapsto> \<lparr>count = 1, firstAttempt = 0, lastAttempt = 0\<rparr>]\<rparr>)
   \<and> fst (canRestart 40000
        ''a'' (init_world\<lparr>restartAttempts :=
                 [''a'' \<mapsto> \<lparr>count = 1, firstAttempt = 0, lastAttempt = 0\<rparr>]\<rparr>))
   \<and> restart_run ''a'' [0, 10000, 40000, 70000, 100000, 130000] init_world =
        [(True, Some 1), (False, Some 1), (True, Some 2), (True, Some 3),
         (False, Some 3), (True, Some 1)]"
proof -
  let ?w1 = "init_world\<lparr>restartAttempts :=
                 [''a'' \<mapsto> \<lparr>count = 1, firstAttempt = 0, lastAttempt = 0\<rparr>]\<rparr>"
  let ?w3 = "init_world\<lparr>restartAttempts :=
                 [''a'' \<mapsto> \<lparr>count = 3, firstAttempt = 0, lastAttempt = 70000\<rparr>]\<rparr>"
  note r0 = canRestart_four_rules [of init_world "''a''" 0
              "\<lparr>count = 1, firstAttempt = 0, lastAttempt = 0\<rparr>" 0]
  note r1 = canRestart_four_rules [of ?w1 "''a''" 10000
              "\<lparr>count = 1, firstAttempt = 0, lastAttempt = 0\<rparr>" 0]
  note r1' = canRestart_four_rules [of ?w1 "''a''" 40000
              "\<lparr>count = 1, firstAttempt = 0, lastAttempt = 0\<rparr>" 0]
  note r3 = canRestart_four_rules [of ?w3 "''a''" 100000
              "\<lparr>count = 3, firstAttempt = 0, lastAttempt = 70000\<rparr>" 0]
  have a: "restartAttempts init_world ''a'' = None" by (simp add: init_world_def)
  from r0 a have c1: "canRestart 0 ''a'' init_world =
     (True, init_world\<lparr>restartAttempts :=
        [''a'' \<mapsto> \<lparr>count = 1, firstAttempt = 0, lastAttempt = 0\<rparr>]\<rparr>)"
    by (simp add: init_world_def)
  have c5: "restart_run ''a'' [0, 10000, 40000, 70000, 100000, 130000] init_world =
        [(True, Some 1), (False, Some 1), (True, Some 2), (True, Some 3),
         (False, Some 3), (True, Some 1)]"
    using r0 [THEN conjunct2, THEN conjunct2, THEN conjunct2, THEN conjunct2, rule_format, OF a]
    by (simp only: add_0)
  from r3 have c2: "canRestart 100000 ''a'' ?w3 = (False, ?w3)" by simp
  from r1 have c3: "canRestart 10000 ''a'' ?w1 = (False, ?w1)" by simp
  from r1' have c4: "fst (canRestart 40000 ''a'' ?w1)" by simp
  from c1 c2 c3 c4 c5 show ?thesis by blast
qed

subsection \<open>C1: the orphan reaper and pids of registered sessions\<close>

text \<open>
  C1 asks that \<^verbatim>\<open>killOrphanedBrowserByLockFile\<close> signal the pid of a lock file only
  when the pid belongs to no registered session and the process is the browser of this
  very session directory. The function makes none of these checks: it signals any pid
  that \<^verbatim>\<open>process.kill(pid, 0)\<close> accepts. In \<open>orphan_world\<close> the key \<open>C\<close> has no entry
  in \<^verbatim>\<open>sessions\<close> or \<^verbatim>\<open>pendingSessions\<close>, its lock file names pid 4242, and 4242 is the
  browser of the registered session \<open>D\<close>. Reaping \<open>C\<close>, directly or through
  \<^verbatim>\<open>destroySession\<close>, sends \<^verbatim>\<open>SIGKILL\<close> to 4242, whatever the outside answers.
\<close>

theorem orphan_reaper_kills_registered_pid:
  "sessions orphan_world ''C'' = None
   \<and> ''C'' \<notin> pendingSessions orphan_world
   \<and> sessions orphan_world ''D'' = Some \<lparr>clientId = 1, pupBrowser = Some (Some 4242)\<rparr>
   \<and> procs orphan_world 4242 = Some Signalable
   \<and> killed (snd (killOrphanedBrowserByLockFile e ''C'' orphan_world)) = [4242]
   \<and> procs (snd (killOrphanedBrowserByLockFile e ''C'' orphan_world)) 4242 = None
   \<and> (\<exists>w'. destroySession e ''C'' orphan_world = Some (Returns (), w')
          \<and> killed w' = [4242] \<and> procs w' 4242 = None
          \<and> sessions w' ''D'' = Some \<lparr>clientId = 1, pupBrowser = Some (Some 4242)\<rparr>)"
proof -
  have reg: "sessions orphan_world ''C'' = None" and free: "sessionLocks orphan_world ''C'' = None"
    by (simp_all add: orphan_world_def init_world_def)
  show ?thesis
    unfolding destroy_unregistered [OF reg free]
    by (cases "unlinkOutcome e")
       (simp_all add: pending_delete_def
          orphan_world_def init_world_def killOrphanedBrowserByLockFile_def
          readLockPid_def lockPid_example killLockOwner_def sigkill_def unlinkLock_def
          remove_lock_def)
qed

subsection \<open>C4: conflicts of \<^verbatim>\<open>setupSession\<close> and the reservation\<close>

text \<open>
  C4. \<^verbatim>\<open>setupSession\<close> on a key that is in \<^verbatim>\<open>sessions\<close> returns a failure whose message
  is \<open>Session already exists for: <key>\<close> (with the registered client), and on a key
  that is in \<^verbatim>\<open>pendingSessions\<close> a failure whose message is \<open>Session initialization
  already in progress for: <key>\<close>; the two messages differ for all keys, and in both
  cases the world is unchanged. Otherwise the key is put into \<^verbatim>\<open>pendingSessions\<close> by the
  same stretch of code that made the two tests (\<open>setup_reserve\<close>, lines 188-197). When
  building the client then succeeds, the first step of the call ends at its first
  \<^verbatim>\<open>await\<close> with the key pending and \<^verbatim>\<open>sessions\<close> as before; when it throws, the same
  step takes the key out again and returns the failure.
\<close>

theorem setup_conflicts:
  "(sessions w k = Some c \<longrightarrow>
      setupSession e k w =
        (\<lparr>success = False, message = ''Session already exists for: '' @ k, client = Some c\<rparr>, w)
      \<and> setup_step e k Entry w =
        (Conflict \<lparr>success = False, message = ''Session already exists for: '' @ k,
                   client = Some c\<rparr>, w))
   \<and> (sessions w k = None \<and> k \<in> pendingSessions w \<longrightarrow>
      setupSession e k w =
        (\<lparr>success = False,
          message = ''Session initialization already in progress for: '' @ k,
          client = None\<rparr>, w)
      \<and> setup_step e k Entry w =
        (Conflict \<lparr>success = False,
                   message = ''Session initialization already in progress for: '' @ k,
                   client = None\<rparr>, w))
   \<and> ''Session already exists for: '' @ k
        \<noteq> ''Session initialization already in progress for: '' @ k'
   \<and> (sessions w k = None \<and> k \<notin> pendingSessions w \<longrightarrow>
        setup_reserve k w = (None, w\<lparr>pendingSessions := insert k (pendingSessions w)\<rparr>)
      \<and> (buildOutcome e = Returns () \<longrightarrow>
            in_flight (fst (setup_step e k Entry w))
          \<and> k \<in> pendingSessions (snd (setup_step e k Entry w))
          \<and> sessions (snd (setup_step e k Entry w)) = sessions w
          \<and> pendingSessions (snd (setup_step e k Entry w)) = insert k (pendingSessions w))
      \<and> (\<forall>msg. buildOutcome e = Throws msg \<longrightarrow>
            setup_step e k Entry w = (Failed (setup_failed msg), w)))"
  by (auto simp: setupSession_def setup_reserve_def launch_def start_initialize_def
        spawn_def attempts_delete_def pending_delete_def Let_def split: option.splits)

theorem setup_conflicts_witness:
  "setupSession quiet_env ''a''
      (init_world\<lparr>sessions := [''a'' \<mapsto> \<lparr>clientId = 7, pupBrowser = None\<rparr>]\<rparr>) =
     (\<lparr>success = False, message = ''Session already exists for: a'',
       client = Some \<lparr>clientId = 7, pupBrowser = None\<rparr>\<rparr>,
      init_world\<lparr>sessions := [''a'' \<mapsto> \<lparr>clientId = 7, pupBrowser = None\<rparr>]\<rparr>)
   \<and> setupSession quiet_env ''a'' (init_world\<lparr>pendingSessions := {''a''}\<rparr>) =
     (\<lparr>success = False, message = ''Session initialization already in progress for: a'',
       client = None\<rparr>,
      init_world\<lparr>pendingSessions := {''a''}\<rparr>)
   \<and> ''a'' \<in> pendingSessions (snd (setup_step quiet_env ''a'' Entry init_world))
   \<and> in_flight (fst (setup_step quiet_env ''a'' Entry init_world))"
proof -
  let ?c = "\<lparr>clientId = 7, pupBrowser = None\<rparr>"
  let ?wa = "init_world\<lparr>sessions := [''a'' \<mapsto> ?c]\<rparr>"
  let ?wp = "init_world\<lparr>pendingSessions := {''a''}\<rparr>"
  have a: "sessions ?wa ''a'' = Some ?c" by simp
  have p: "sessions ?wp ''a'' = None \<and> ''a'' \<in> pendingSessions ?wp"
    by (simp add: init_world_def)
  have n: "sessions init_world ''a'' = None \<and> ''a'' \<notin> pendingSessions init_world"
    by (simp add: init_world_def)
  from setup_conflicts [of ?wa "''a''" ?c quiet_env "''a''"] a
  have 1: "setupSession quiet_env ''a'' ?wa =
     (\<lparr>success = False, message = ''Session already exists for: a'', client = Some ?c\<rparr>, ?wa)"
    by simp
  from setup_conflicts [of ?wp "''a''" ?c quiet_env "''a''"] p
  have 2: "setupSession quiet_env ''a'' ?wp =
     (\<lparr>success = False, message = ''Session initialization already in progress for: a'',
       client = None\<rparr>, ?wp)"
    by simp
  have b: "buildOutcome quiet_env = Returns ()" by (simp add: quiet_env_def)
  from setup_conflicts [of init_world "''a''" ?c quiet_env "''a''"] n b
  have 3: "''a'' \<in> pendingSessions (snd (setup_step quiet_env ''a'' Entry init_world))
       \<and> in_flight (fst (setup_step quiet_env ''a'' Entry init_world))"
    by blast
  from 1 2 3 show ?thesis by blast
qed

subsection \<open>C5: a launch that fails\<close>

text \<open>
  C5. Take a key that is neither registered nor pending, and a call of
  \<^verbatim>\<open>setupSession\<close> that reaches \<^verbatim>\<open>client.initialize()\<close> (building the client does not
  throw, and removing a stale lock file, when that is asked for and there is one, does not
  fail) and whose \<^verbatim>\<open>initialize\<close> throws.
  Then the call returns \<open>{success: false, message: <the error's message>, client:
  null}\<close>; \<^verbatim>\<open>sessions\<close> and \<^verbatim>\<open>pendingSessions\<close> are as they were before the call, so the
  key is in neither; and a browser process that the launch had started has been sent
  \<^verbatim>\<open>SIGKILL\<close> and is gone from the process table.
\<close>

theorem setup_launch_failure:
  assumes "sessions w k = None" and "k \<notin> pendingSessions w"
    and "buildOutcome e = Returns ()"
    and "releaseBrowserLock e \<and> lockFiles w k \<noteq> None \<longrightarrow> unlinkOutcome e = Returns ()"
    and "initializeOutcome e = Throws msg"
  shows "fst (setupSession e k w) = \<lparr>success = False, message = msg, client = None\<rparr>
     \<and> sessions (snd (setupSession e k w)) = sessions w
     \<and> pendingSessions (snd (setupSession e k w)) = pendingSessions w
     \<and> sessions (snd (setupSession e k w)) k = None
     \<and> k \<notin> pendingSessions (snd (setupSession e k w))
     \<and> (\<forall>p. launched e = Some (Some p) \<longrightarrow>
           procs (snd (setupSession e k w)) p = None
           \<and> p \<in> set (killed (snd (setupSession e k w))))"
  using assms
  by (auto simp: setupSession_def setup_reserve_def release_stale_lock_def remove_lock_def
        start_initialize_def spawn_def attempts_delete_def Let_def setup_failed_def
        pending_delete_def killBrowserProcess_def sigkill_def
        split: option.splits outcome.splits)

theorem setup_launch_failure_witness:
  "fst (setupSession (quiet_env\<lparr>initializeOutcome := Throws ''no browser''\<rparr>) ''a''
          (init_world\<lparr>lockFiles := [''a'' \<mapsto> Symlink ''host-77'']\<rparr>))
     = \<lparr>success = False, message = ''no browser'', client = None\<rparr>
   \<and> sessions (snd (setupSession (quiet_env\<lparr>initializeOutcome := Throws ''no browser''\<rparr>) ''a''
          (init_world\<lparr>lockFiles := [''a'' \<mapsto> Symlink ''host-77'']\<rparr>))) ''a'' = None
   \<and> ''a'' \<notin> pendingSessions
        (snd (setupSession (quiet_env\<lparr>initializeOutcome := Throws ''no browser''\<rparr>) ''a''
          (init_world\<lparr>lockFiles := [''a'' \<mapsto> Symlink ''host-77'']\<rparr>)))
   \<and> procs (snd (setupSession (quiet_env\<lparr>initializeOutcome := Throws ''no browser''\<rparr>) ''a''
          (init_world\<lparr>lockFiles := [''a'' \<mapsto> Symlink ''host-77'']\<rparr>))) 100 = None
   \<and> 100 \<in> set (killed
        (snd (setupSession (quiet_env\<lparr>initializeOutcome := Throws ''no browser''\<rparr>) ''a''
          (init_world\<lparr>lockFiles := [''a'' \<mapsto> Symlink ''host-77'']\<rparr>))))"
proof -
  let ?e = "quiet_env\<lparr>initializeOutcome := Throws ''no browser''\<rparr>"
  let ?w = "init_world\<lparr>lockFiles := [''a'' \<mapsto> Symlink ''host-77'']\<rparr>"
  have h1: "sessions ?w ''a'' = None" by (simp add: init_world_def)
  have h2: "''a'' \<notin> pendingSessions ?w" by (simp add: init_world_def)
  have h3: "releaseBrowserLock ?e \<and> lockFiles ?w ''a'' \<noteq> None \<longrightarrow> unlinkOutcome ?e = Returns ()"
    by (simp add: quiet_env_def)
  have h4: "initializeOutcome ?e = Throws ''no browser''" by simp
  have hb: "buildOutcome ?e = Returns ()" by (simp add: quiet_env_def)
  have l: "launched ?e = Some (Some 100)" by (simp add: quiet_env_def)
  from setup_launch_failure [OF h1 h2 hb h3 h4] l show ?thesis by blast
qed

subsection \<open>C6: the traversal guard of \<^verbatim>\<open>deleteSessionFolder\<close>\<close>

text \<open>
  C6, as the code has it. When both paths resolve, \<^verbatim>\<open>deleteSessionFolder\<close> hands the
  resolved target to \<^verbatim>\<open>fs.promises.rm\<close> only if it starts with the resolved session
  folder and a separator, so that it lies strictly below the folder; otherwise it throws
  \<open>Invalid path: Directory traversal detected\<close> and the world is unchanged. When a path
  does not resolve, the error of \<^verbatim>\<open>realpath\<close> is thrown and the world is unchanged. Hence
  every path that a call of \<^verbatim>\<open>deleteSession\<close> hands to \<^verbatim>\<open>rm\<close> lies strictly below the
  resolved session folder. Besides that removal a call of \<^verbatim>\<open>deleteSession\<close> deletes at
  most one path: for a key that is not registered and whose directory holds a
  \<^verbatim>\<open>SingletonLock\<close>, the orphan reaper unlinks \<open>singletonLockPath\<close>, a path that is not
  resolved and not compared with the session folder. The claim says that no path outside
  the session folder is ever deleted; the run after the theorem deletes one.
\<close>

theorem deleteSessionFolder_guard:
  "(\<forall>t root. realpath e (pathJoin e (sessionFolderPath e) (''session-'' @ k)) = Returns t
        \<and> realpath e (sessionFolderPath e) = Returns root \<longrightarrow>
        (if prefix (root @ ''/'') t
         then strict_prefix root t
              \<and> deleteSessionFolder e k w = (rmOutcome e, w\<lparr>rmCalls := rmCalls w @ [t]\<rparr>)
         else deleteSessionFolder e k w
                = (Throws ''Invalid path: Directory traversal detected'', w)))
   \<and> (\<forall>msg. realpath e (pathJoin e (sessionFolderPath e) (''session-'' @ k)) = Throws msg
        \<or> (\<exists>t. realpath e (pathJoin e (sessionFolderPath e) (''session-'' @ k)) = Returns t)
            \<and> realpath e (sessionFolderPath e) = Throws msg \<longrightarrow>
        deleteSessionFolder e k w = (Throws msg, w))
   \<and> (\<forall>r w'. deleteSession e k v w = Some (r, w') \<longrightarrow>
        (\<exists>ps. rmCalls w' = rmCalls w @ ps \<and> (\<forall>p \<in> set ps. inside_root e p))
        \<and> (unlinked w' = unlinked w
           \<or> sessions w k = None \<and> lockFiles w k \<noteq> None
               \<and> unlinked w' = unlinked w @ [singletonLockPath e k]))"
proof (intro conjI allI impI)
  fix t root
  assume "realpath e (pathJoin e (sessionFolderPath e) (''session-'' @ k)) = Returns t
        \<and> realpath e (sessionFolderPath e) = Returns root"
  then show "if prefix (root @ ''/'') t
         then strict_prefix root t
              \<and> deleteSessionFolder e k w = (rmOutcome e, w\<lparr>rmCalls := rmCalls w @ [t]\<rparr>)
         else deleteSessionFolder e k w
                = (Throws ''Invalid path: Directory traversal detected'', w)"
    by (simp add: deleteSessionFolder_def path_sep_def sep_prefix_strict)
next
  fix msg
  assume "realpath e (pathJoin e (sessionFolderPath e) (''session-'' @ k)) = Throws msg
        \<or> (\<exists>t. realpath e (pathJoin e (sessionFolderPath e) (''session-'' @ k)) = Returns t)
            \<and> realpath e (sessionFolderPath e) = Throws msg"
  then show "deleteSessionFolder e k w = (Throws msg, w)"
    by (auto simp: deleteSessionFolder_def)
next
  fix r w'
  assume run: "deleteSession e k v w = Some (r, w')"
  then obtain w1 where acq: "acquireSessionLock k w = Some w1"
    and w': "w' = releaseSessionLock k (snd (delete_body e k v w1))"
    by (auto simp: deleteSession_def finally_release_def)
  from acquire_Some [OF acq] have "rmCalls w1 = rmCalls w" by simp
  with delete_body_rm [of e k v w1] w'
  show "\<exists>ps. rmCalls w' = rmCalls w @ ps \<and> (\<forall>p \<in> set ps. inside_root e p)"
    by (cases "rmCalls (snd (delete_body e k v w1)) = rmCalls w1") (auto simp: rm_frame)
next
  fix r w'
  assume run: "deleteSession e k v w = Some (r, w')"
  then obtain w1 where acq: "acquireSessionLock k w = Some w1"
    and w': "w' = releaseSessionLock k (snd (delete_body e k v w1))"
    by (auto simp: deleteSession_def finally_release_def)
  from acquire_Some [OF acq] have "unlinked w1 = unlinked w" "sessions w1 = sessions w"
    "lockFiles w1 = lockFiles w" by simp_all
  with delete_body_unlinked [of e k v w1] w'
  show "unlinked w' = unlinked w
           \<or> sessions w k = None \<and> lockFiles w k \<noteq> None
               \<and> unlinked w' = unlinked w @ [singletonLockPath e k]"
    by (simp add: unlinked_frame)
qed

text \<open>A path outside the session folder is deleted. In \<open>escape_world\<close>, with the
  answers of \<open>escape_env\<close>, \<^verbatim>\<open>deleteSession\<close> of the unregistered key \<open>x\<close> returns
  without an error. The orphan reaper has sent \<^verbatim>\<open>SIGKILL\<close> to the pid the lock names and
  has unlinked \<open>/data/sessions/session-x/SingletonLock\<close>, the entry \<open>/etc/SingletonLock\<close>,
  which is not below the session folder. \<^verbatim>\<open>deleteSessionFolder\<close>, called after that,
  finds the same directory outside the folder, removes nothing and throws the traversal
  error, which \<^verbatim>\<open>deleteSession\<close> discards.\<close>

theorem deleteSession_unlinks_outside_root:
  "lockFiles escape_world ''x'' = Some (Symlink ''host-4242'')
   \<and> lockLocation escape_env ''x'' = Some ''/etc/SingletonLock''
   \<and> \<not> inside_root escape_env ''/etc/SingletonLock''
   \<and> map_option fst
        (deleteSession escape_env ''x''
           \<lparr>success = False, message = ''session_not_found'', state = None\<rparr> escape_world)
       = Some (Returns ())
   \<and> map_option (\<lambda>rw. lockFiles (snd rw) ''x'')
        (deleteSession escape_env ''x''
           \<lparr>success = False, message = ''session_not_found'', state = None\<rparr> escape_world)
       = Some None
   \<and> map_option (unlinked \<circ> snd)
        (deleteSession escape_env ''x''
           \<lparr>success = False, message = ''session_not_found'', state = None\<rparr> escape_world)
       = Some [''/data/sessions/session-x/SingletonLock'']
   \<and> map_option (killed \<circ> snd)
        (deleteSession escape_env ''x''
           \<lparr>success = False, message = ''session_not_found'', state = None\<rparr> escape_world)
       = Some [4242]
   \<and> map_option (rmCalls \<circ> snd)
        (deleteSession escape_env ''x''
           \<lparr>success = False, message = ''session_not_found'', state = None\<rparr> escape_world)
       = Some []
   \<and> fst (deleteSessionFolder escape_env ''x'' escape_world)
       = Throws ''Invalid path: Directory traversal detected''"
proof -
  have reg: "sessions escape_world ''x'' = None"
    and free: "sessionLocks escape_world ''x'' = None"
    by (simp_all add: escape_world_def init_world_def)
  show ?thesis
    unfolding delete_unregistered [OF reg free]
    by code_simp
qed

text \<open>An escape: the directory of session \<open>x\<close> is a link to \<open>/etc\<close>. A session
  directory that cannot be resolved. The teardown of a session directory that is where
  it should be; and the same when the directory holds a \<^verbatim>\<open>SingletonLock\<close>.\<close>

theorem deleteSessionFolder_guard_witness:
  "deleteSessionFolder
      (quiet_env\<lparr>realpath := (\<lambda>p. if p = ''/data/sessions/session-x'' then Returns ''/etc''
                                  else Returns p)\<rparr>) ''x'' init_world
     = (Throws ''Invalid path: Directory traversal detected'', init_world)
   \<and> deleteSessionFolder quiet_env ''a'' init_world
     = (Returns (), init_world\<lparr>rmCalls := [''/data/sessions/session-a'']\<rparr>)
   \<and> deleteSessionFolder (quiet_env\<lparr>realpath := (\<lambda>p. Throws ''ENOENT'')\<rparr>) ''a'' init_world
     = (Throws ''ENOENT'', init_world)
   \<and> deleteSession quiet_env ''a''
        \<lparr>success = False, message = ''session_not_found'', state = None\<rparr> init_world
     = Some (Returns (), init_world\<lparr>rmCalls := [''/data/sessions/session-a'']\<rparr>)
   \<and> inside_root quiet_env ''/data/sessions/session-a''
   \<and> map_option (\<lambda>rw. (rmCalls (snd rw), unlinked (snd rw)))
        (deleteSession quiet_env ''a''
           \<lparr>success = False, message = ''session_not_found'', state = None\<rparr>
           (init_world\<lparr>lockFiles := [''a'' \<mapsto> NotALink]\<rparr>))
     = Some ([''/data/sessions/session-a''], [''/data/sessions/session-a/SingletonLock''])"
proof -
  let ?ex = "quiet_env\<lparr>realpath := (\<lambda>p. if p = ''/data/sessions/session-x'' then Returns ''/etc''
                                  else Returns p)\<rparr>"
  let ?en = "quiet_env\<lparr>realpath := (\<lambda>p. Throws ''ENOENT'')\<rparr>"
  let ?v = "\<lparr>success = False, message = ''session_not_found'', state = None\<rparr>"
  let ?w' = "init_world\<lparr>rmCalls := [''/data/sessions/session-a'']\<rparr>"
  let ?wl = "init_world\<lparr>lockFiles := [''a'' \<mapsto> NotALink]\<rparr>"
  have 1: "deleteSessionFolder ?ex ''x'' init_world
     = (Throws ''Invalid path: Directory traversal detected'', init_world)"
    using deleteSessionFolder_guard [of ?ex "''x''" init_world ?v, THEN conjunct1,
            rule_format, of "''/etc''" "''/data/sessions''"]
    by (simp add: quiet_env_def)
  have 2: "deleteSessionFolder quiet_env ''a'' init_world = (Returns (), ?w')"
    using deleteSessionFolder_guard [of quiet_env "''a''" init_world ?v, THEN conjunct1,
            rule_format, of "''/data/sessions/session-a''" "''/data/sessions''"]
    by (simp add: quiet_env_def init_world_def)
  have 3: "deleteSessionFolder ?en ''a'' init_world = (Throws ''ENOENT'', init_world)"
    using deleteSessionFolder_guard [of ?en "''a''" init_world ?v, THEN conjunct2, THEN conjunct1,
            rule_format, of "''ENOENT''"]
    by simp
  have free: "sessionLocks init_world ''a'' = None" and reg: "sessions init_world ''a'' = None"
    and nolock: "lockFiles init_world ''a'' = None"
    by (simp_all add: init_world_def)
  have orphan: "killOrphanedBrowserByLockFile quiet_env ''a'' init_world = (False, init_world)"
    using nolock by (simp add: killOrphanedBrowserByLockFile_def)
  have pend: "pending_delete ''a'' init_world = init_world"
    by (simp add: pending_delete_def init_world_def)
  have 4: "deleteSession quiet_env ''a'' ?v init_world = Some (Returns (), ?w')"
    unfolding delete_unregistered [OF reg free] by (simp add: orphan pend 2)
  from deleteSessionFolder_guard [of quiet_env "''a''" init_world ?v,
            THEN conjunct2, THEN conjunct2, rule_format, OF 4]
  have 5: "inside_root quiet_env ''/data/sessions/session-a''"
    by (simp add: init_world_def)
  have regl: "sessions ?wl ''a'' = None" and freel: "sessionLocks ?wl ''a'' = None"
    by (simp_all add: init_world_def)
  have 6: "map_option (\<lambda>rw. (rmCalls (snd rw), unlinked (snd rw)))
        (deleteSession quiet_env ''a'' ?v ?wl)
     = Some ([''/data/sessions/session-a''], [''/data/sessions/session-a/SingletonLock''])"
    unfolding delete_unregistered [OF regl freel] by code_simp
  from 1 2 3 4 5 6 show ?thesis by blast
qed

subsection \<open>C7: the liveness probe\<close>

text \<open>
  C7, as the code has it. On a registered key \<^verbatim>\<open>validateSession\<close> makes up to three
  passes. A pass in which the page says it is closed ends the probe with \<open>{success:
  false, message: 'browser tab closed'}\<close>. A pass that throws is repeated, and after three
  passes that throw the probe ends with \<open>{success: false, message: 'session closed'}\<close>. A
  pass in which the round trip settles, or in which the one-second timer settles first,
  ends the loop: the probe then asks \<^verbatim>\<open>client.getState()\<close> and answers success exactly
  when the state is \<open>CONNECTED\<close> (message \<open>session_connected\<close>, otherwise
  \<open>session_not_connected\<close>); when \<^verbatim>\<open>getState\<close> throws it answers \<open>{success: false}\<close> with
  the error's message. A round trip that times out is therefore not retried and does not
  count against the session.
\<close>

theorem validateSession_verdict:
  assumes reg: "sessions w k = Some c"
  shows
  "(n \<le> 2 \<and> (\<forall>i<n. probe e i = AttemptThrows) \<and> probe e n = PageClosed \<longrightarrow>
      validateSession e k w =
        Some \<lparr>success = False, message = ''browser tab closed'', state = None\<rparr>)
   \<and> ((\<forall>i<3. probe e i = AttemptThrows) \<longrightarrow>
      validateSession e k w =
        Some \<lparr>success = False, message = ''session closed'', state = None\<rparr>)
   \<and> (n \<le> 2 \<and> (\<forall>i<n. probe e i = AttemptThrows)
        \<and> (probe e n = RoundTripDone \<or> probe e n = RoundTripTimeout) \<longrightarrow>
      (\<forall>st. getState e = Returns st \<longrightarrow>
         validateSession e k w =
           Some \<lparr>success = (st = Some ''CONNECTED''),
                 message = (if st = Some ''CONNECTED'' then ''session_connected''
                            else ''session_not_connected''),
                 state = st\<rparr>)
      \<and> (\<forall>msg. getState e = Throws msg \<longrightarrow>
         validateSession e k w = Some \<lparr>success = False, message = msg, state = None\<rparr>))"
proof -
  have n_cases: "n \<le> 2 \<Longrightarrow> n = 0 \<or> n = 1 \<or> n = 2" by arith
  have lt1: "\<And>P. (\<forall>i<(1::nat). P i) = P 0" by auto
  have lt2: "\<And>P. (\<forall>i<(2::nat). P i) = (P 0 \<and> P 1)"
    by (auto simp: less_Suc_eq numeral_2_eq_2)
  have lt3: "\<And>P. (\<forall>i<(3::nat). P i) = (P 0 \<and> P 1 \<and> P 2)"
    by (auto simp: less_Suc_eq numeral_3_eq_3 numeral_2_eq_2)
  show ?thesis
    using reg
    by (auto simp: validateSession_def probe_loop_closed_form lt1 lt2 lt3 dest!: n_cases)
qed

text \<open>The claim's sentence on timeouts fails: every round trip times out, and the probe
  reports the session connected.\<close>

theorem validateSession_timeouts_counterexample:
  "validateSession (quiet_env\<lparr>probe := (\<lambda>n. RoundTripTimeout)\<rparr>) ''a''
     (init_world\<lparr>sessions := [''a'' \<mapsto> \<lparr>clientId = 1, pupBrowser = Some (Some 100)\<rparr>]\<rparr>)
   = Some \<lparr>success = True, message = ''session_connected'', state = Some ''CONNECTED''\<rparr>"
  by (simp add: validateSession_def probe_loop_closed_form quiet_env_def init_world_def)

theorem validateSession_verdict_witness:
  "validateSession (quiet_env\<lparr>probe := (\<lambda>n. if n = 0 then AttemptThrows else PageClosed)\<rparr>) ''a''
     (init_world\<lparr>sessions := [''a'' \<mapsto> \<lparr>clientId = 1, pupBrowser = Some (Some 100)\<rparr>]\<rparr>)
     = Some \<lparr>success = False, message = ''browser tab closed'', state = None\<rparr>
   \<and> validateSession (quiet_env\<lparr>probe := (\<lambda>n. AttemptThrows)\<rparr>) ''a''
     (init_world\<lparr>sessions := [''a'' \<mapsto> \<lparr>clientId = 1, pupBrowser = Some (Some 100)\<rparr>]\<rparr>)
     = Some \<lparr>success = False, message = ''session closed'', state = None\<rparr>
   \<and> validateSession (quiet_env\<lparr>getState := Returns (Some ''OPENING'')\<rparr>) ''a''
     (init_world\<lparr>sessions := [''a'' \<mapsto> \<lparr>clientId = 1, pupBrowser = Some (Some 100)\<rparr>]\<rparr>)
     = Some \<lparr>success = False, message = ''session_not_connected'', state = Some ''OPENING''\<rparr>
   \<and> validateSession quiet_env ''a''
     (init_world\<lparr>sessions := [''a'' \<mapsto> \<lparr>clientId = 1, pupBrowser = Some (Some 100)\<rparr>]\<rparr>)
     = Some \<lparr>success = True, message = ''session_connected'', state = Some ''CONNECTED''\<rparr>"
proof -
  let ?c = "\<lparr>clientId = 1, pupBrowser = Some (Some 100)\<rparr>"
  let ?w = "init_world\<lparr>sessions := [''a'' \<mapsto> ?c]\<rparr>"
  have reg: "sessions ?w ''a'' = Some ?c" by simp
  have 1: "validateSession
       (quiet_env\<lparr>probe := (\<lambda>n. if n = 0 then AttemptThrows else PageClosed)\<rparr>) ''a'' ?w
     = Some \<lparr>success = False, message = ''browser tab closed'', state = None\<rparr>"
    using validateSession_verdict [OF reg, of 1
       "quiet_env\<lparr>probe := (\<lambda>n. if n = 0 then AttemptThrows else PageClosed)\<rparr>"]
    by simp
  have 2: "validateSession (quiet_env\<lparr>probe := (\<lambda>n. AttemptThrows)\<rparr>) ''a'' ?w
     = Some \<lparr>success = False, message = ''session closed'', state = None\<rparr>"
    using validateSession_verdict [OF reg, of 0 "quiet_env\<lparr>probe := (\<lambda>n. AttemptThrows)\<rparr>"]
    by simp
  have 3: "validateSession (quiet_env\<lparr>getState := Returns (Some ''OPENING'')\<rparr>) ''a'' ?w
     = Some \<lparr>success = False, message = ''session_not_connected'', state = Some ''OPENING''\<rparr>"
    using validateSession_verdict [OF reg, of 0
       "quiet_env\<lparr>getState := Returns (Some ''OPENING'')\<rparr>"]
    by (simp add: quiet_env_def)
  have 4: "validateSession quiet_env ''a'' ?w
     = Some \<lparr>success = True, message = ''session_connected'', state = Some ''CONNECTED''\<rparr>"
    using validateSession_verdict [OF reg, of 0 quiet_env]
    by (simp add: quiet_env_def)
  from 1 2 3 4 show ?thesis by blast
qed

subsection \<open>C8: teardown of an absent key\<close>

text \<open>
  C8. Let a key be absent: not in \<^verbatim>\<open>sessions\<close>, not in \<^verbatim>\<open>pendingSessions\<close>, no
  \<^verbatim>\<open>SingletonLock\<close> in its directory; and let its session lock be free, so that the call
  gets to run. Then \<^verbatim>\<open>destroySession\<close> returns without an error and leaves the whole
  world as it was (the four tables, the lock files, the removals, the process table and
  the signals sent); and so does a second call after the first, whatever the outside
  answers to either.
\<close>

theorem destroy_absent_noop:
  assumes "sessions w k = None" and "k \<notin> pendingSessions w" and "lockFiles w k = None"
    and "sessionLocks w k = None"
  shows "destroySession e1 k w = Some (Returns (), w)
     \<and> Option.bind (destroySession e1 k w) (\<lambda>(r, w1). destroySession e2 k w1)
         = Some (Returns (), w)"
proof -
  have noop: "\<And>e. destroySession e k w = Some (Returns (), w)"
    using assms
    by (simp add: destroy_unregistered killOrphanedBrowserByLockFile_def pending_delete_def)
  show ?thesis by (simp add: noop)
qed

theorem destroy_absent_noop_witness:
  "destroySession quiet_env ''a'' init_world = Some (Returns (), init_world)
   \<and> Option.bind (destroySession quiet_env ''a'' init_world)
        (\<lambda>(r, w1). destroySession (quiet_env\<lparr>unlinkOutcome := Throws ''EPERM''\<rparr>) ''a'' w1)
      = Some (Returns (), init_world)"
proof -
  have h: "sessions init_world ''a'' = None" "''a'' \<notin> pendingSessions init_world"
    "lockFiles init_world ''a'' = None" "sessionLocks init_world ''a'' = None"
    by (simp_all add: init_world_def)
  from destroy_absent_noop [OF h] show ?thesis by blast
qed

subsection \<open>C10: the session lock is released\<close>

text \<open>Nothing but \<^verbatim>\<open>acquireSessionLock\<close> and \<^verbatim>\<open>releaseSessionLock\<close> writes the lock
  table.\<close>

lemma locks_frame:
  "sessionLocks (sigkill p w) = sessionLocks w"
  "sessionLocks (killBrowserProcess c w) = sessionLocks w"
  "sessionLocks (snd (killOrphanedBrowserByLockFile e k w)) = sessionLocks w"
  "sessionLocks (pending_delete k w) = sessionLocks w"
  "sessionLocks (registry_drop k w) = sessionLocks w"
  "sessionLocks (registry_cleanup k w) = sessionLocks w"
  "sessionLocks (force_stop e c w) = sessionLocks w"
  "sessionLocks (snd (deleteSessionFolder e k w)) = sessionLocks w"
  "sessionLocks (snd (canRestart now k w)) = sessionLocks w"
  by (auto simp: sigkill_def killBrowserProcess_def killOrphanedBrowserByLockFile_def
        killLockOwner_def unlinkLock_def remove_lock_def pending_delete_def registry_cleanup_def
        registry_drop_def attempts_delete_def force_stop_def Let_def deleteSessionFolder_def
        canRestart_def split: option.splits outcome.splits)

lemma setup_locks_frame: "sessionLocks (snd (setupSession e k w)) = sessionLocks w"
  by (auto simp: setupSession_def setup_reserve_def release_stale_lock_def remove_lock_def
        start_initialize_def spawn_def attempts_delete_def setup_complete_def
        pending_delete_def killBrowserProcess_def sigkill_def Let_def
        split: option.splits outcome.splits)

lemma body_locks_frame:
  "sessionLocks (snd (destroy_body e k w)) = sessionLocks w"
  "sessionLocks (snd (delete_body e k v w)) = sessionLocks w"
  "sessionLocks (snd (reload_body e k w)) = sessionLocks w"
  "sessionLocks (snd (restart_body e k c w)) = sessionLocks w"
  by (auto simp: destroy_body_def delete_body_def reload_body_def restart_body_def
        locks_frame setup_locks_frame Let_def split: option.splits outcome.splits)

text \<open>An operation that takes the lock, runs its \<^verbatim>\<open>try\<close> block and releases the lock
  in \<^verbatim>\<open>finally\<close>.\<close>

lemma locked_operation:
  assumes free: "sessionLocks w k = None"
    and frame: "\<And>w1. sessionLocks (snd (body w1)) = sessionLocks w1"
  shows "\<exists>w'. map_option (\<lambda>w1. finally_release k (body w1)) (acquireSessionLock k w)
            = Some (fst (body (w\<lparr>sessionLocks := (sessionLocks w)(k \<mapsto> True)\<rparr>)), w')
          \<and> sessionLocks w' = sessionLocks w"
  using free
  by (simp add: acquire_free finally_release_def releaseSessionLock_def frame fun_upd_idem)

text \<open>
  C10. Let the session lock of a key be free when \<^verbatim>\<open>reloadSession\<close>,
  \<^verbatim>\<open>destroySession\<close>, \<^verbatim>\<open>deleteSession\<close> or \<^verbatim>\<open>safeRestartSession\<close> is called for it. Then
  the call completes, and after it the lock table is as it was before: the lock of the
  key is free again, whether the call returned or threw, whatever the outside answered. In
  particular, when detaching the page listeners of a registered session throws, each of
  the first three operations throws that error and leaves the world as it was, the lock
  released; and when \<^verbatim>\<open>realpath\<close> fails in the \<^verbatim>\<open>deleteSession\<close> of a registered session,
  the error is thrown and the lock is free.
\<close>

theorem locked_operations_release:
  assumes free: "sessionLocks w k = None"
  shows
  "(\<exists>r w'. reloadSession e k w = Some (r, w')
        \<and> sessionLocks w' = sessionLocks w \<and> sessionLocks w' k = None)
   \<and> (\<exists>r w'. destroySession e k w = Some (r, w')
        \<and> sessionLocks w' = sessionLocks w \<and> sessionLocks w' k = None)
   \<and> (\<exists>r w'. deleteSession e k v w = Some (r, w')
        \<and> sessionLocks w' = sessionLocks w \<and> sessionLocks w' k = None)
   \<and> (\<exists>r w'. safeRestartSession e k c w = Some (r, w')
        \<and> sessionLocks w' = sessionLocks w \<and> sessionLocks w' k = None)
   \<and> (\<forall>c' msg. sessions w k = Some c' \<and> detachListeners e = Throws msg \<longrightarrow>
        reloadSession e k w = Some (Throws msg, w)
        \<and> destroySession e k w = Some (Throws msg, w)
        \<and> deleteSession e k v w = Some (Throws msg, w))
   \<and> (\<forall>c' msg. sessions w k = Some c' \<and> detachListeners e = Returns ()
        \<and> realpath e (pathJoin e (sessionFolderPath e) (''session-'' @ k)) = Throws msg \<longrightarrow>
        (\<exists>w'. deleteSession e k v w = Some (Throws msg, w') \<and> sessionLocks w' k = None))"
proof (intro conjI allI impI)
  show "\<exists>r w'. reloadSession e k w = Some (r, w')
        \<and> sessionLocks w' = sessionLocks w \<and> sessionLocks w' k = None"
    using locked_operation [OF free, of "reload_body e k"] free
    by (auto simp: reloadSession_def body_locks_frame)
next
  show "\<exists>r w'. destroySession e k w = Some (r, w')
        \<and> sessionLocks w' = sessionLocks w \<and> sessionLocks w' k = None"
    using locked_operation [OF free, of "destroy_body e k"] free
    by (auto simp: destroySession_def body_locks_frame)
next
  show "\<exists>r w'. deleteSession e k v w = Some (r, w')
        \<and> sessionLocks w' = sessionLocks w \<and> sessionLocks w' k = None"
    using locked_operation [OF free, of "delete_body e k v"] free
    by (auto simp: deleteSession_def body_locks_frame)
next
  show "\<exists>r w'. safeRestartSession e k c w = Some (r, w')
        \<and> sessionLocks w' = sessionLocks w \<and> sessionLocks w' k = None"
  proof (cases "canRestart (clock e) k w")
    case (Pair ok w1)
    have l1: "sessionLocks w1 = sessionLocks w"
      using locks_frame(9) [of "clock e" k w] Pair by simp
    show ?thesis
    proof (cases ok)
      case True
      with Pair l1 free locked_operation [of w1 k "restart_body e k c"]
      show ?thesis by (auto simp: safeRestartSession_def body_locks_frame)
    next
      case False
      with Pair l1 free show ?thesis
        by (simp add: safeRestartSession_def locks_frame)
    qed
  qed
next
  fix c' msg
  assume h: "sessions w k = Some c' \<and> detachListeners e = Throws msg"
  let ?w1 = "w\<lparr>sessionLocks := (sessionLocks w)(k \<mapsto> True)\<rparr>"
  have acq: "acquireSessionLock k w = Some ?w1" using free by (simp add: acquire_free)
  have rel: "releaseSessionLock k ?w1 = w" by (rule lock_roundtrip [OF free])
  from h show "reloadSession e k w = Some (Throws msg, w)"
    by (simp add: reloadSession_def acq reload_body_def finally_release_def rel)
  from h show "destroySession e k w = Some (Throws msg, w)"
    by (simp add: destroySession_def acq destroy_body_def finally_release_def rel)
  from h show "deleteSession e k v w = Some (Throws msg, w)"
    by (simp add: deleteSession_def acq delete_body_def finally_release_def rel)
next
  fix c' msg
  assume h: "sessions w k = Some c' \<and> detachListeners e = Returns ()
        \<and> realpath e (pathJoin e (sessionFolderPath e) (''session-'' @ k)) = Throws msg"
  let ?w1 = "w\<lparr>sessionLocks := (sessionLocks w)(k \<mapsto> True)\<rparr>"
  have res: "fst (delete_body e k v ?w1) = Throws msg"
    using h by (simp add: delete_body_def deleteSessionFolder_def)
  from locked_operation [OF free, of "delete_body e k v"] res free
  show "\<exists>w'. deleteSession e k v w = Some (Throws msg, w') \<and> sessionLocks w' k = None"
    by (auto simp: deleteSession_def body_locks_frame)
qed

theorem locked_operations_release_witness:
  "(\<exists>r w'. reloadSession quiet_env ''a''
        (init_world\<lparr>sessions := [''a'' \<mapsto> \<lparr>clientId = 1, pupBrowser = Some (Some 100)\<rparr>]\<rparr>)
          = Some (r, w') \<and> sessionLocks w' ''a'' = None)
   \<and> destroySession (quiet_env\<lparr>detachListeners := Throws ''detached frame''\<rparr>) ''a''
        (init_world\<lparr>sessions := [''a'' \<mapsto> \<lparr>clientId = 1, pupBrowser = Some (Some 100)\<rparr>]\<rparr>)
      = Some (Throws ''detached frame'',
          init_world\<lparr>sessions := [''a'' \<mapsto> \<lparr>clientId = 1, pupBrowser = Some (Some 100)\<rparr>]\<rparr>)
   \<and> (\<exists>w'. deleteSession (quiet_env\<lparr>realpath := (\<lambda>p. Throws ''ENOENT'')\<rparr>) ''a''
          \<lparr>success = True, message = ''session_connected'', state = Some ''CONNECTED''\<rparr>
          (init_world\<lparr>sessions := [''a'' \<mapsto> \<lparr>clientId = 1, pupBrowser = Some (Some 100)\<rparr>]\<rparr>)
        = Some (Throws ''ENOENT'', w') \<and> sessionLocks w' ''a'' = None)
   \<and> (\<exists>r w'. safeRestartSession quiet_env ''a'' \<lparr>clientId = 1, pupBrowser = Some (Some 100)\<rparr>
        (init_world\<lparr>sessions := [''a'' \<mapsto> \<lparr>clientId = 1, pupBrowser = Some (Some 100)\<rparr>]\<rparr>)
          = Some (r, w') \<and> sessionLocks w' ''a'' = None)"
proof -
  let ?c = "\<lparr>clientId = 1, pupBrowser = Some (Some 100)\<rparr>"
  let ?w = "init_world\<lparr>sessions := [''a'' \<mapsto> ?c]\<rparr>"
  let ?v = "\<lparr>success = True, message = ''session_connected'', state = Some ''CONNECTED''\<rparr>"
  have free: "sessionLocks ?w ''a'' = None" by (simp add: init_world_def)
  have reg: "sessions ?w ''a'' = Some ?c" by simp
  have 1: "\<exists>r w'. reloadSession quiet_env ''a'' ?w = Some (r, w') \<and> sessionLocks w' ''a'' = None"
    using locked_operations_release [OF free, of quiet_env ?v ?c] by blast
  have 2: "destroySession (quiet_env\<lparr>detachListeners := Throws ''detached frame''\<rparr>) ''a'' ?w
      = Some (Throws ''detached frame'', ?w)"
    using locked_operations_release
            [OF free, of "quiet_env\<lparr>detachListeners := Throws ''detached frame''\<rparr>" ?v ?c] reg
    by simp
  have 3: "\<exists>w'. deleteSession (quiet_env\<lparr>realpath := (\<lambda>p. Throws ''ENOENT'')\<rparr>) ''a'' ?v ?w
        = Some (Throws ''ENOENT'', w') \<and> sessionLocks w' ''a'' = None"
    using locked_operations_release
            [OF free, of "quiet_env\<lparr>realpath := (\<lambda>p. Throws ''ENOENT'')\<rparr>" ?v ?c,
             THEN conjunct2, THEN conjunct2, THEN conjunct2, THEN conjunct2, THEN conjunct2,
             rule_format, of ?c "''ENOENT''"] reg
    by (simp add: quiet_env_def)
  have 4: "\<exists>r w'. safeRestartSession quiet_env ''a'' ?c ?w = Some (r, w')
        \<and> sessionLocks w' ''a'' = None"
    using locked_operations_release [OF free, of quiet_env ?v ?c] by blast
  from 1 2 3 4 show ?thesis by blast
qed

subsection \<open>C3: no key is registered and pending at once\<close>

text \<open>Each stretch of code keeps the two tables apart. Only \<^verbatim>\<open>setupSession\<close> puts a key
  into either table: into \<^verbatim>\<open>pendingSessions\<close> only after the test that it is not in
  \<^verbatim>\<open>sessions\<close>, and into \<^verbatim>\<open>sessions\<close> in the stretch that takes it out of
  \<^verbatim>\<open>pendingSessions\<close>. Teardown, reload and recovery only take keys out.\<close>

lemma perform_keeps_disjoint:
  "registry_disjoint w \<Longrightarrow> registry_disjoint (perform a w)"
proof (cases a)
  case (SetupReserve k)
  assume "registry_disjoint w"
  with SetupReserve show ?thesis
    by (auto simp: registry_disjoint_def setup_reserve_def split: option.splits)
next
  case (UnlinkLock e k)
  assume "registry_disjoint w"
  with UnlinkLock show ?thesis
    by (auto simp: registry_disjoint_def remove_lock_def)
next
  case (SetupLaunch e k)
  assume "registry_disjoint w"
  with SetupLaunch show ?thesis
    by (auto simp: registry_disjoint_def start_initialize_def spawn_def attempts_delete_def
          Let_def split: option.splits)
next
  case (SetupComplete k c)
  assume "registry_disjoint w"
  with SetupComplete show ?thesis
    by (auto simp: registry_disjoint_def setup_complete_def pending_delete_def)
next
  case (KillBrowser c)
  assume "registry_disjoint w"
  with KillBrowser show ?thesis
    by (auto simp: registry_disjoint_def killBrowserProcess_def sigkill_def
          split: option.splits)
next
  case (PendingDelete k)
  assume "registry_disjoint w"
  with PendingDelete show ?thesis
    by (auto simp: registry_disjoint_def pending_delete_def)
next
  case (Ready k)
  assume "registry_disjoint w"
  with Ready show ?thesis
    by (auto simp: registry_disjoint_def attempts_delete_def)
next
  case (CanRestart now k)
  assume "registry_disjoint w"
  with CanRestart show ?thesis
    by (auto simp: registry_disjoint_def canRestart_def split: option.splits)
next
  case (RegistryDrop k)
  assume "registry_disjoint w"
  with RegistryDrop show ?thesis
    by (auto simp: registry_disjoint_def registry_drop_def pending_delete_def
          split: if_splits)
next
  case (RegistryCleanup k)
  assume "registry_disjoint w"
  with RegistryCleanup show ?thesis
    by (auto simp: registry_disjoint_def registry_cleanup_def registry_drop_def
          pending_delete_def attempts_delete_def split: if_splits)
next
  case (KillLockOwner p)
  assume "registry_disjoint w"
  with KillLockOwner show ?thesis
    by (auto simp: registry_disjoint_def killLockOwner_def sigkill_def split: option.splits)
next
  case (RemoveFolder e k)
  assume "registry_disjoint w"
  with RemoveFolder show ?thesis
    by (auto simp: registry_disjoint_def deleteSessionFolder_def Let_def
          split: outcome.splits)
next
  case (AcquireLock k)
  assume "registry_disjoint w"
  with AcquireLock show ?thesis
    by (auto simp: registry_disjoint_def)
next
  case (ReleaseLock k)
  assume "registry_disjoint w"
  with ReleaseLock show ?thesis
    by (auto simp: registry_disjoint_def releaseSessionLock_def)
qed

lemma run_keeps_disjoint:
  "registry_disjoint w \<Longrightarrow> registry_disjoint (run_actions acts w)"
  unfolding run_actions_def
  by (induction acts arbitrary: w) (simp_all add: perform_keeps_disjoint)

text \<open>Every operation, run from its start to its end, is a run of these stretches, and
  so is every step of a call of \<^verbatim>\<open>setupSession\<close>.\<close>

lemma run_append: "run_actions (as @ bs) w = run_actions bs (run_actions as w)"
  by (simp add: run_actions_def)

lemma run_single: "run_actions [a] w = perform a w"
  by (simp add: run_actions_def)

lemma run_nil: "run_actions [] w = w"
  by (simp add: run_actions_def)

text \<open>A run followed by one more stretch is a run.\<close>

lemma run_then:
  "(\<exists>acts. w1 = run_actions acts w) \<Longrightarrow> (\<exists>acts. perform a w1 = run_actions acts w)"
proof -
  assume "\<exists>acts. w1 = run_actions acts w"
  then obtain acts where "w1 = run_actions acts w" ..
  then have "perform a w1 = run_actions (acts @ [a]) w" by (simp add: run_append run_single)
  then show ?thesis ..
qed

lemma run_trans:
  "(\<exists>acts. w1 = run_actions acts w) \<Longrightarrow> (\<exists>acts. w2 = run_actions acts w1)
     \<Longrightarrow> (\<exists>acts. w2 = run_actions acts w)"
proof -
  assume "\<exists>acts. w1 = run_actions acts w" "\<exists>acts. w2 = run_actions acts w1"
  then obtain as bs where "w1 = run_actions as w" "w2 = run_actions bs w1" by blast
  then have "w2 = run_actions (as @ bs) w" by (simp add: run_append)
  then show ?thesis ..
qed

lemma run_refl: "\<exists>acts. w = run_actions acts w"
  using run_nil [of w, symmetric] ..

lemma launch_snd: "snd (launch e k w) = perform (SetupLaunch e k) w"
  by (simp add: launch_def split: prod.splits)

lemma unlink_is_run:
  "\<exists>acts. remove_lock e k w = run_actions acts w"
  using run_then [OF run_refl, of "UnlinkLock e k" w] by simp

lemma release_stale_lock_is_run:
  "release_stale_lock e k w = Returns w2 \<Longrightarrow> \<exists>acts. w2 = run_actions acts w"
proof -
  assume "release_stale_lock e k w = Returns w2"
  then have "w2 = w \<or> w2 = remove_lock e k w"
    by (auto simp: release_stale_lock_def split: if_splits option.splits outcome.splits)
  with run_refl [of w] unlink_is_run [of e k w] show ?thesis by blast
qed

lemma killOrphaned_is_run:
  "\<exists>acts. snd (killOrphanedBrowserByLockFile e k w) = run_actions acts w"
proof (cases "lockFiles w k")
  case None
  with run_refl [of w] show ?thesis by (simp add: killOrphanedBrowserByLockFile_def)
next
  case (Some f)
  let ?w1 = "killLockOwner (readLockPid f) w"
  have r1: "\<exists>acts. ?w1 = run_actions acts w"
    using run_then [OF run_refl, of "KillLockOwner (readLockPid f)" w] by simp
  from run_trans [OF r1 unlink_is_run [of e k ?w1]] r1 Some show ?thesis
    by (cases "unlinkOutcome e") (simp_all add: killOrphanedBrowserByLockFile_def unlinkLock_def)
qed

lemma setupSession_is_run: "\<exists>acts. snd (setupSession e k w) = run_actions acts w"
proof (cases "setup_reserve k w")
  case (Pair early w1)
  have r1: "\<exists>acts. w1 = run_actions acts w"
    using run_then [OF run_refl, of "SetupReserve k" w] Pair by simp
  show ?thesis
  proof (cases early)
    case (Some r)
    with Pair r1 show ?thesis by (simp add: setupSession_def)
  next
    case None
    note r2 = run_then [OF r1, of "PendingDelete k"]
    show ?thesis
    proof (cases "buildOutcome e")
      case (Throws msg)
      with Pair None r2 show ?thesis by (simp add: setupSession_def)
    next
      case (Returns u)
      show ?thesis
      proof (cases "release_stale_lock e k w1")
        case (Throws msg)
        with Pair None Returns r2 show ?thesis by (simp add: setupSession_def)
      next
        case rl: (Returns w2)
        have r3: "\<exists>acts. w2 = run_actions acts w"
          by (rule run_trans [OF r1 release_stale_lock_is_run [OF rl]])
        obtain c w3 where si: "start_initialize e k w2 = (c, w3)"
          by (cases "start_initialize e k w2")
        have r4: "\<exists>acts. w3 = run_actions acts w"
          using run_then [OF r3, of "SetupLaunch e k"] si by simp
        show ?thesis
        proof (cases "initializeOutcome e")
          case ok: (Returns u')
          from run_then [OF r4, of "SetupComplete k c"] Pair None Returns rl si ok
          show ?thesis by (simp add: setupSession_def)
        next
          case (Throws msg)
          from run_then [OF run_then [OF run_then [OF r4, of "KillBrowser c"],
                  of "PendingDelete k"], of "PendingDelete k"]
            Pair None Returns rl si Throws
          show ?thesis by (simp add: setupSession_def)
        qed
      qed
    qed
  qed
qed

lemma force_stop_is_run: "\<exists>acts. force_stop e c w = run_actions acts w"
proof (cases "connected e c (wait_disconnect e c 0 + 1)")
  case True
  with run_then [OF run_refl, of "KillBrowser c" w] show ?thesis
    by (simp add: force_stop_def)
next
  case False
  with run_refl [of w] show ?thesis by (simp add: force_stop_def)
qed

lemma destroy_body_is_run: "\<exists>acts. snd (destroy_body e k w) = run_actions acts w"
proof (cases "sessions w k")
  case None
  from run_then [OF killOrphaned_is_run, of "PendingDelete k" e k w] None
  show ?thesis by (simp add: destroy_body_def)
next
  case (Some c)
  show ?thesis
  proof (cases "detachListeners e")
    case (Returns u)
    from run_then [OF force_stop_is_run, of "RegistryCleanup k" e c w] Some Returns
    show ?thesis by (simp add: destroy_body_def)
  next
    case (Throws msg)
    with Some run_refl [of w] show ?thesis by (simp add: destroy_body_def)
  qed
qed

lemma delete_body_is_run: "\<exists>acts. snd (delete_body e k v w) = run_actions acts w"
proof (cases "sessions w k")
  case None
  from run_then [OF run_then [OF killOrphaned_is_run, of "PendingDelete k"],
          of "RemoveFolder e k" e k w] None
  show ?thesis by (simp add: delete_body_def)
next
  case (Some c)
  show ?thesis
  proof (cases "detachListeners e")
    case (Returns u)
    from run_then [OF run_then [OF force_stop_is_run, of "RegistryCleanup k"],
           of "RemoveFolder e k" e c w] Some Returns
    show ?thesis by (simp add: delete_body_def)
  next
    case (Throws msg)
    with Some run_refl [of w] show ?thesis by (simp add: delete_body_def)
  qed
qed

lemma reload_body_is_run: "\<exists>acts. snd (reload_body e k w) = run_actions acts w"
proof (cases "sessions w k")
  case None
  with run_refl [of w] show ?thesis by (simp add: reload_body_def)
next
  case (Some c)
  show ?thesis
  proof (cases "detachListeners e")
    case (Returns u)
    let ?w1 = "case closePages e of Throws x \<Rightarrow> killBrowserProcess c w | Returns x \<Rightarrow> w"
    have "\<exists>acts. ?w1 = run_actions acts w"
      using run_then [OF run_refl, of "KillBrowser c" w] run_refl [of w]
      by (cases "closePages e") simp_all
    from run_trans [OF run_then [OF this, of "RegistryDrop k"] setupSession_is_run] Some Returns
    show ?thesis by (simp add: reload_body_def)
  next
    case (Throws msg)
    with Some run_refl [of w] show ?thesis by (simp add: reload_body_def)
  qed
qed

lemma restart_body_is_run: "\<exists>acts. snd (restart_body e k c w) = run_actions acts w"
  using run_trans [OF run_then [OF run_then [OF run_refl, of "RegistryDrop k"],
          of "KillBrowser c"] setupSession_is_run, of e k w]
  by (simp add: restart_body_def)

text \<open>A locked operation that returns: the lock is taken, the \<^verbatim>\<open>try\<close> block runs, the
  lock is released.\<close>

lemma locked_is_run:
  assumes body: "\<And>w1. \<exists>acts. snd (body w1) = run_actions acts w1"
    and ret: "map_option (\<lambda>w1. finally_release k (body w1)) (acquireSessionLock k w) = Some (r, w')"
  shows "\<exists>acts. w' = run_actions acts w"
proof -
  from ret obtain w1 where acq: "acquireSessionLock k w = Some w1"
    and w': "w' = releaseSessionLock k (snd (body w1))"
    by (auto simp: finally_release_def)
  from acquire_Some [OF acq] have "w1 = perform (AcquireLock k) w" by simp
  with run_then [OF run_refl, of "AcquireLock k" w] have "\<exists>acts. w1 = run_actions acts w"
    by simp
  from run_then [OF run_trans [OF this body], of "ReleaseLock k"] w'
  show ?thesis by simp
qed

lemma operations_are_runs:
  "\<exists>acts. snd (setupSession e k w) = run_actions acts w"
  "destroySession e k w = Some (r, w') \<Longrightarrow> \<exists>acts. w' = run_actions acts w"
  "deleteSession e k v w = Some (r, w') \<Longrightarrow> \<exists>acts. w' = run_actions acts w"
  "reloadSession e k w = Some (r, w') \<Longrightarrow> \<exists>acts. w' = run_actions acts w"
  "safeRestartSession e k c w = Some (r, w') \<Longrightarrow> \<exists>acts. w' = run_actions acts w"
proof -
  show "\<exists>acts. snd (setupSession e k w) = run_actions acts w" by (rule setupSession_is_run)
  show "destroySession e k w = Some (r, w') \<Longrightarrow> \<exists>acts. w' = run_actions acts w"
    unfolding destroySession_def by (rule locked_is_run [OF destroy_body_is_run])
  show "deleteSession e k v w = Some (r, w') \<Longrightarrow> \<exists>acts. w' = run_actions acts w"
    unfolding deleteSession_def by (rule locked_is_run [OF delete_body_is_run])
  show "reloadSession e k w = Some (r, w') \<Longrightarrow> \<exists>acts. w' = run_actions acts w"
    unfolding reloadSession_def by (rule locked_is_run [OF reload_body_is_run])
  show "safeRestartSession e k c w = Some (r, w') \<Longrightarrow> \<exists>acts. w' = run_actions acts w"
  proof -
    assume ret: "safeRestartSession e k c w = Some (r, w')"
    obtain ok w1 where cr: "canRestart (clock e) k w = (ok, w1)"
      by (cases "canRestart (clock e) k w")
    have r1: "\<exists>acts. w1 = run_actions acts w"
      using run_then [OF run_refl, of "CanRestart (clock e) k" w] cr by simp
    show ?thesis
    proof (cases ok)
      case False
      with ret cr have "w' = killBrowserProcess c (registry_drop k w1)"
        by (simp add: safeRestartSession_def)
      with run_then [OF run_then [OF r1, of "RegistryDrop k"], of "KillBrowser c"]
      show ?thesis by simp
    next
      case True
      with ret cr have "map_option (\<lambda>w2. finally_release k (restart_body e k c w2))
            (acquireSessionLock k w1) = Some (r, w')"
        by (simp add: safeRestartSession_def)
      from locked_is_run [OF restart_body_is_run this] have "\<exists>acts. w' = run_actions acts w1" .
      from run_trans [OF r1 this] show ?thesis .
    qed
  qed
qed

lemma setup_step_is_run: "\<exists>acts. snd (setup_step e k pc w) = run_actions acts w"
proof (cases pc)
  case Entry
  obtain early w1 where rs: "setup_reserve k w = (early, w1)" by (cases "setup_reserve k w")
  have r1: "\<exists>acts. w1 = run_actions acts w"
    using run_then [OF run_refl, of "SetupReserve k" w] rs by simp
  show ?thesis
  proof (cases early)
    case (Some r)
    with Entry rs r1 show ?thesis by simp
  next
    case None
    show ?thesis
    proof (cases "buildOutcome e")
      case (Throws msg)
      with Entry rs None run_then [OF r1, of "PendingDelete k"] show ?thesis by simp
    next
      case (Returns u)
      with Entry rs None r1 run_then [OF r1, of "SetupLaunch e k"] show ?thesis
        by (cases "releaseBrowserLock e") (simp_all add: launch_snd)
    qed
  qed
next
  case AwaitLstat
  with run_refl [of w] run_then [OF run_refl, of "SetupLaunch e k" w] show ?thesis
    by (auto simp: launch_snd split: option.splits)
next
  case AwaitUnlink
  show ?thesis
  proof (cases "unlinkOutcome e")
    case (Returns u)
    from run_then [OF unlink_is_run, of "SetupLaunch e k" e k w] AwaitUnlink Returns
    show ?thesis by (simp add: launch_snd)
  next
    case (Throws msg)
    with AwaitUnlink run_then [OF run_refl, of "PendingDelete k" w] show ?thesis by simp
  qed
next
  case (AwaitInitialize c)
  with run_then [OF run_refl, of "SetupComplete k c" w] run_then [OF run_refl, of "KillBrowser c" w]
  show ?thesis by (cases "initializeOutcome e") simp_all
next
  case (AwaitKill msg)
  with run_then [OF run_then [OF run_refl, of "PendingDelete k"], of "PendingDelete k" w]
  show ?thesis by simp
next
  case (Conflict r)
  with run_refl [of w] show ?thesis by simp
next
  case (Failed r)
  with run_refl [of w] show ?thesis by simp
next
  case (Started r)
  with run_refl [of w] show ?thesis by simp
qed

text \<open>
  C3. Start the server with empty tables and let the stretches of code between
  \<^verbatim>\<open>await\<close>s of any calls of setup, teardown (\<^verbatim>\<open>destroySession\<close>, \<^verbatim>\<open>deleteSession\<close>),
  reload and crash recovery run in any order and any number. After each stretch, that is
  at every point where a call is suspended, no key is both in \<^verbatim>\<open>pendingSessions\<close> and a
  key of \<^verbatim>\<open>sessions\<close>. From any world reached in this way, the same holds after a step of
  a call of \<^verbatim>\<open>setupSession\<close> and after each of the five operations run from start to
  end.
\<close>

theorem registry_never_overlaps:
  "registry_disjoint (run_actions acts init_world)
   \<and> dom (sessions (run_actions acts init_world))
       \<inter> pendingSessions (run_actions acts init_world) = {}
   \<and> registry_disjoint (snd (setup_step e k pc (run_actions acts init_world)))
   \<and> registry_disjoint (snd (setupSession e k (run_actions acts init_world)))
   \<and> (\<forall>r w'. destroySession e k (run_actions acts init_world) = Some (r, w')
          \<longrightarrow> registry_disjoint w')
   \<and> (\<forall>r w'. deleteSession e k v (run_actions acts init_world) = Some (r, w')
          \<longrightarrow> registry_disjoint w')
   \<and> (\<forall>r w'. reloadSession e k (run_actions acts init_world) = Some (r, w')
          \<longrightarrow> registry_disjoint w')
   \<and> (\<forall>r w'. safeRestartSession e k c (run_actions acts init_world) = Some (r, w')
          \<longrightarrow> registry_disjoint w')"
proof -
  let ?w = "run_actions acts init_world"
  have "registry_disjoint init_world"
    by (simp add: registry_disjoint_def init_world_def)
  then have here: "registry_disjoint ?w"
    by (rule run_keeps_disjoint)
  have after: "\<And>w'. \<exists>acts'. w' = run_actions acts' ?w \<Longrightarrow> registry_disjoint w'"
    using run_keeps_disjoint [OF here] by blast
  from here have inter: "dom (sessions ?w) \<inter> pendingSessions ?w = {}"
    by (simp add: registry_disjoint_def)
  have d_step: "registry_disjoint (snd (setup_step e k pc ?w))"
    by (rule after [OF setup_step_is_run])
  have d_setup: "registry_disjoint (snd (setupSession e k ?w))"
    by (rule after [OF operations_are_runs(1)])
  have d_destroy: "\<forall>r w'. destroySession e k ?w = Some (r, w') \<longrightarrow> registry_disjoint w'"
    using after [OF operations_are_runs(2)] by blast
  have d_delete: "\<forall>r w'. deleteSession e k v ?w = Some (r, w') \<longrightarrow> registry_disjoint w'"
    using after [OF operations_are_runs(3)] by blast
  have d_reload: "\<forall>r w'. reloadSession e k ?w = Some (r, w') \<longrightarrow> registry_disjoint w'"
    using after [OF operations_are_runs(4)] by blast
  have d_restart: "\<forall>r w'. safeRestartSession e k c ?w = Some (r, w') \<longrightarrow> registry_disjoint w'"
    using after [OF operations_are_runs(5)] by blast
  from here inter d_step d_setup d_destroy d_delete d_reload d_restart show ?thesis by blast
qed

text \<open>A run in which a teardown takes the pending mark away from a setup that is still
  launching, a second setup reserves the key, and the first setup then completes.\<close>

theorem registry_never_overlaps_witness:
  "registry_disjoint
     (run_actions
        [SetupReserve ''a'', SetupLaunch quiet_env ''a'', PendingDelete ''a'',
         SetupReserve ''a'', SetupComplete ''a'' \<lparr>clientId = 1, pupBrowser = Some (Some 100)\<rparr>]
        init_world)
   \<and> sessions
     (run_actions
        [SetupReserve ''a'', SetupLaunch quiet_env ''a'', PendingDelete ''a'',
         SetupReserve ''a'', SetupComplete ''a'' \<lparr>clientId = 1, pupBrowser = Some (Some 100)\<rparr>]
        init_world) ''a'' = Some \<lparr>clientId = 1, pupBrowser = Some (Some 100)\<rparr>
   \<and> pendingSessions
     (run_actions
        [SetupReserve ''a'', SetupLaunch quiet_env ''a'', PendingDelete ''a'',
         SetupReserve ''a'', SetupComplete ''a'' \<lparr>clientId = 1, pupBrowser = Some (Some 100)\<rparr>]
        init_world) = {}"
proof -
  let ?acts = "[SetupReserve ''a'', SetupLaunch quiet_env ''a'', PendingDelete ''a'',
         SetupReserve ''a'', SetupComplete ''a'' \<lparr>clientId = 1, pupBrowser = Some (Some 100)\<rparr>]"
  have 1: "registry_disjoint (run_actions ?acts init_world)"
    using registry_never_overlaps [of ?acts] by blast
  have 2: "sessions (run_actions ?acts init_world) ''a''
             = Some \<lparr>clientId = 1, pupBrowser = Some (Some 100)\<rparr>
       \<and> pendingSessions (run_actions ?acts init_world) = {}"
    by (simp add: run_actions_def init_world_def setup_reserve_def start_initialize_def
          spawn_def quiet_env_def pending_delete_def setup_complete_def)
  from 1 2 show ?thesis by blast
qed

subsection \<open>C9: overlapping calls of \<^verbatim>\<open>setupSession\<close>\<close>







text \<open>A call that runs alone reaches its return within five steps, in the world and
  with the reply that \<^verbatim>\<open>setupSession\<close>, run from start to end, gives.\<close>

lemma run_one:
  "run_setups k [0, 0, 0, 0, 0] [e] w =
     (let (p1, w1) = setup_step e k Entry w;
          (p2, w2) = setup_step e k p1 w1;
          (p3, w3) = setup_step e k p2 w2;
          (p4, w4) = setup_step e k p3 w3;
          (p5, w5) = setup_step e k p4 w4
      in (w5, [(e, p5)]))"
  by (simp add: run_setups_def sched_step_def split: prod.splits)

lemma setup_alone:
  "fst (run_setups k [0, 0, 0, 0, 0] [e] w) = snd (setupSession e k w)
   \<and> map (reply_of \<circ> snd) (snd (run_setups k [0, 0, 0, 0, 0] [e] w))
       = [Some (fst (setupSession e k w))]"
proof (cases "setup_reserve k w")
  case (Pair early w1)
  show ?thesis
  proof (cases early)
    case (Some r)
    with Pair show ?thesis by (simp add: run_one setupSession_def)
  next
    case None
    show ?thesis
    proof (cases "buildOutcome e")
      case (Throws msg)
      with Pair None show ?thesis by (simp add: run_one setupSession_def)
    next
      case (Returns u)
      from Pair None have w1: "sessions w1 k = None" "lockFiles w1 = lockFiles w"
        by (auto simp: setup_reserve_def split: option.splits if_splits)
      show ?thesis
      proof (cases "releaseBrowserLock e")
        case False
        then have rl: "release_stale_lock e k w1 = Returns w1"
          by (simp add: release_stale_lock_def)
        from Pair None Returns False rl show ?thesis
          by (cases "initializeOutcome e")
             (simp_all add: run_one setupSession_def launch_def split: prod.splits)
      next
        case True
        show ?thesis
        proof (cases "lockFiles w1 k")
          case nl: None
          with True have rl: "release_stale_lock e k w1 = Returns w1"
            by (simp add: release_stale_lock_def)
          from Pair None Returns True nl rl show ?thesis
            by (cases "initializeOutcome e")
               (simp_all add: run_one setupSession_def launch_def split: prod.splits)
        next
          case (Some f)
          show ?thesis
          proof (cases "unlinkOutcome e")
            case ok: (Returns u')
            with True Some w1 have rl: "release_stale_lock e k w1
                = Returns (remove_lock e k w1)"
              by (simp add: release_stale_lock_def)
            from Pair None Returns True Some ok rl w1 show ?thesis
              by (cases "initializeOutcome e")
                 (simp_all add: run_one setupSession_def launch_def split: prod.splits)
          next
            case (Throws msg)
            with True Some w1 have rl: "release_stale_lock e k w1 = Throws msg"
              by (simp add: release_stale_lock_def)
            from Pair None Returns True Some Throws rl w1 show ?thesis
              by (simp add: run_one setupSession_def)
          qed
        qed
      qed
    qed
  qed
qed
































end
